theory Spec2Isabelle
  imports Complex_Main
begin

section \<open>JavaScript numbers\<close>

text \<open>
  A JavaScript number is modelled as a real number or one of the three special values.
  Rounding to 64-bit floating point, overflow and the sign of zero are not modelled: the
  arithmetic below is the IEEE arithmetic of the special values over exact reals.
\<close>

datatype jsnum = Num real | PInf | NInf | NaN

fun js_neg :: "jsnum \<Rightarrow> jsnum" where
  "js_neg (Num a) = Num (- a)"
| "js_neg PInf = NInf"
| "js_neg NInf = PInf"
| "js_neg NaN = NaN"

fun js_add :: "jsnum \<Rightarrow> jsnum \<Rightarrow> jsnum" where
  "js_add NaN _ = NaN"
| "js_add _ NaN = NaN"
| "js_add (Num a) (Num b) = Num (a + b)"
| "js_add PInf NInf = NaN"
| "js_add NInf PInf = NaN"
| "js_add PInf _ = PInf"
| "js_add NInf _ = NInf"
| "js_add _ PInf = PInf"
| "js_add _ NInf = NInf"

definition js_sub :: "jsnum \<Rightarrow> jsnum \<Rightarrow> jsnum" where
  "js_sub a b = js_add a (js_neg b)"

fun js_mul :: "jsnum \<Rightarrow> jsnum \<Rightarrow> jsnum" where
  "js_mul NaN _ = NaN"
| "js_mul _ NaN = NaN"
| "js_mul (Num a) (Num b) = Num (a * b)"
| "js_mul (Num a) PInf = (if a = 0 then NaN else if 0 < a then PInf else NInf)"
| "js_mul (Num a) NInf = (if a = 0 then NaN else if 0 < a then NInf else PInf)"
| "js_mul PInf (Num b) = (if b = 0 then NaN else if 0 < b then PInf else NInf)"
| "js_mul NInf (Num b) = (if b = 0 then NaN else if 0 < b then NInf else PInf)"
| "js_mul PInf PInf = PInf"
| "js_mul NInf NInf = PInf"
| "js_mul PInf NInf = NInf"
| "js_mul NInf PInf = NInf"

fun js_div :: "jsnum \<Rightarrow> jsnum \<Rightarrow> jsnum" where
  "js_div NaN _ = NaN"
| "js_div _ NaN = NaN"
| "js_div (Num a) (Num b) =
     (if b = 0 then (if a = 0 then NaN else if 0 < a then PInf else NInf) else Num (a / b))"
| "js_div (Num a) PInf = Num 0"
| "js_div (Num a) NInf = Num 0"
| "js_div PInf (Num b) = (if 0 \<le> b then PInf else NInf)"
| "js_div NInf (Num b) = (if 0 \<le> b then NInf else PInf)"
| "js_div _ _ = NaN"

text \<open>Comparisons: every comparison with \<open>NaN\<close> is false.\<close>

fun js_lt :: "jsnum \<Rightarrow> jsnum \<Rightarrow> bool" where
  "js_lt NaN _ = False"
| "js_lt _ NaN = False"
| "js_lt (Num a) (Num b) = (a < b)"
| "js_lt (Num a) PInf = True"
| "js_lt NInf (Num b) = True"
| "js_lt NInf PInf = True"
| "js_lt _ _ = False"

fun js_le :: "jsnum \<Rightarrow> jsnum \<Rightarrow> bool" where
  "js_le NaN _ = False"
| "js_le _ NaN = False"
| "js_le (Num a) (Num b) = (a \<le> b)"
| "js_le (Num a) PInf = True"
| "js_le NInf _ = True"
| "js_le PInf PInf = True"
| "js_le _ _ = False"

definition js_gt :: "jsnum \<Rightarrow> jsnum \<Rightarrow> bool" where
  "js_gt a b = js_lt b a"

definition js_ge :: "jsnum \<Rightarrow> jsnum \<Rightarrow> bool" where
  "js_ge a b = js_le b a"

text \<open>\<open>Math.max\<close> and \<open>Math.min\<close> of two numbers: \<open>NaN\<close> when either is.\<close>

definition Math_max :: "jsnum \<Rightarrow> jsnum \<Rightarrow> jsnum" where
  "Math_max a b = (if a = NaN \<or> b = NaN then NaN else if js_lt a b then b else a)"

definition Math_min :: "jsnum \<Rightarrow> jsnum \<Rightarrow> jsnum" where
  "Math_min a b = (if a = NaN \<or> b = NaN then NaN else if js_lt b a then b else a)"

definition js_isNaN :: "jsnum \<Rightarrow> bool" where
  "js_isNaN a = (a = NaN)"

text \<open>Truthiness of a number: zero and \<open>NaN\<close> are falsy. \<open>x || d\<close> on numbers.\<close>

definition num_truthy :: "jsnum \<Rightarrow> bool" where
  "num_truthy a = (a \<noteq> Num 0 \<and> a \<noteq> NaN)"

definition num_or :: "jsnum \<Rightarrow> jsnum \<Rightarrow> jsnum" where
  "num_or a d = (if num_truthy a then a else d)"

text \<open>An absent (undefined) numeric field read in a numeric position.\<close>

definition opt_num_or :: "real option \<Rightarrow> real \<Rightarrow> jsnum" where
  "opt_num_or x d = (case x of None \<Rightarrow> Num d | Some v \<Rightarrow> num_or (Num v) (Num d))"

section \<open>Clip configuration (server.js, CLIP_CONFIG)\<close>

definition MIN_RELEVANCE_SCORE :: real where "MIN_RELEVANCE_SCORE = 5 / 100"
definition MIN_LLM_SCORE :: real where "MIN_LLM_SCORE = 4 / 10"
definition MIN_DURATION :: real where "MIN_DURATION = 5"
definition MAX_DURATION :: real where "MAX_DURATION = 90"
definition MAX_CLIPS :: nat where "MAX_CLIPS = 4"
definition CONTEXT_BUFFER :: real where "CONTEXT_BUFFER = 3"

section \<open>JavaScript strings\<close>

text \<open>
  Strings are lists of characters; the characters of the model are single bytes, so the
  string functions below are those of JavaScript on ASCII text.
\<close>

definition js_ws :: "char \<Rightarrow> bool" where
  "js_ws c = (c \<in> {CHR 0x09, CHR 0x0A, CHR 0x0B, CHR 0x0C, CHR 0x0D, CHR 0x20})"

definition trimStart :: "string \<Rightarrow> string" where
  "trimStart s = dropWhile js_ws s"

definition trim :: "string \<Rightarrow> string" where
  "trim s = rev (dropWhile js_ws (rev (dropWhile js_ws s)))"

definition startsWith :: "string \<Rightarrow> string \<Rightarrow> bool" where
  "startsWith s p = (take (length p) s = p)"

definition endsWith :: "string \<Rightarrow> string \<Rightarrow> bool" where
  "endsWith s p = (length p \<le> length s \<and> drop (length s - length p) s = p)"

fun js_includes :: "string \<Rightarrow> string \<Rightarrow> bool" where
  "js_includes [] p = (p = [])"
| "js_includes (c # s) p = (startsWith (c # s) p \<or> js_includes s p)"

definition toLowerChar :: "char \<Rightarrow> char" where
  "toLowerChar c =
     (let n = (of_char c :: nat) in if 65 \<le> n \<and> n \<le> 90 then char_of (n + 32) else c)"

definition toLowerCase :: "string \<Rightarrow> string" where
  "toLowerCase s = map toLowerChar s"

text \<open>\<open>s.substring(0, n)\<close>.\<close>

definition substring0 :: "nat \<Rightarrow> string \<Rightarrow> string" where
  "substring0 n s = take n s"

text \<open>\<open>s.split(c)\<close> for a one-character separator: never empty.\<close>

fun split_char :: "char \<Rightarrow> string \<Rightarrow> string list" where
  "split_char sep [] = [[]]"
| "split_char sep (c # s) =
     (if c = sep then [] # split_char sep s
      else (case split_char sep s of
              [] \<Rightarrow> [[c]]
            | p # ps \<Rightarrow> (c # p) # ps))"

text \<open>
  The regular expressions of the source are modelled one by one as matchers: a matcher
  takes the text from the current position on and returns the length of the match that
  the JavaScript engine finds there, if any. The three functions below are then
  \<open>replace\<close> with a non-global pattern (first match only), \<open>replace\<close> with a
  global pattern, and the list of all matches of a global pattern. A match in this
  file is never empty, so a scan continues behind the match.
\<close>

type_synonym matcher = "string \<Rightarrow> nat option"

fun replace_first :: "matcher \<Rightarrow> string \<Rightarrow> string \<Rightarrow> string" where
  "replace_first m r [] = []"
| "replace_first m r (c # s) =
     (case m (c # s) of
        Some n \<Rightarrow> r @ drop n (c # s)
      | None \<Rightarrow> c # replace_first m r s)"

function replace_all :: "matcher \<Rightarrow> string \<Rightarrow> string \<Rightarrow> string" where
  "replace_all m r [] = []"
| "replace_all m r (c # s) =
     (case m (c # s) of
        Some n \<Rightarrow> r @ replace_all m r (drop (max 1 n) (c # s))
      | None \<Rightarrow> c # replace_all m r s)"
  by pat_completeness auto
termination
  by (relation "measure (\<lambda>(m, r, s). length s)") auto

function match_all :: "matcher \<Rightarrow> string \<Rightarrow> string list" where
  "match_all m [] = []"
| "match_all m (c # s) =
     (case m (c # s) of
        Some n \<Rightarrow> take n (c # s) # match_all m (drop (max 1 n) (c # s))
      | None \<Rightarrow> match_all m s)"
  by pat_completeness auto
termination
  by (relation "measure (\<lambda>(m, s). length s)") auto

text \<open>A literal pattern.\<close>

definition lit :: "string \<Rightarrow> matcher" where
  "lit p s = (if p \<noteq> [] \<and> startsWith s p then Some (length p) else None)"

text \<open>A literal pattern that ignores case (the \<open>i\<close> flag); \<open>p\<close> is given in lower case.\<close>

definition lit_i :: "string \<Rightarrow> string \<Rightarrow> bool" where
  "lit_i p s = (length p \<le> length s \<and> toLowerCase (take (length p) s) = p)"

subsection \<open>Digits, parseInt, parseFloat\<close>

definition is_digit :: "char \<Rightarrow> bool" where
  "is_digit c = (let n = (of_char c :: nat) in 48 \<le> n \<and> n \<le> 57)"

definition digit_val :: "char \<Rightarrow> nat" where
  "digit_val c = of_char c - 48"

text \<open>The value of a string of decimal digits, most significant first.\<close>

definition dec_val :: "string \<Rightarrow> nat" where
  "dec_val ds = foldl (\<lambda>a c. 10 * a + digit_val c) 0 ds"

text \<open>A non-empty string of decimal digits.\<close>

definition all_digits :: "string \<Rightarrow> bool" where
  "all_digits ds = (ds \<noteq> [] \<and> list_all is_digit ds)"

definition is_hex_digit :: "char \<Rightarrow> bool" where
  "is_hex_digit c =
     (let n = (of_char c :: nat) in
        (48 \<le> n \<and> n \<le> 57) \<or> (65 \<le> n \<and> n \<le> 70) \<or> (97 \<le> n \<and> n \<le> 102))"

definition hex_digit_val :: "char \<Rightarrow> nat" where
  "hex_digit_val c =
     (let n = (of_char c :: nat) in
        if n \<le> 57 then n - 48 else if n \<le> 70 then n - 55 else n - 87)"

definition hex_val :: "string \<Rightarrow> nat" where
  "hex_val ds = foldl (\<lambda>a c. 16 * a + hex_digit_val c) 0 ds"

text \<open>An optional sign: the factor and the rest of the text.\<close>

fun take_sign :: "string \<Rightarrow> real \<times> string" where
  "take_sign [] = (1, [])"
| "take_sign (c # s) =
     (if c = CHR ''-'' then (- 1, s) else if c = CHR ''+'' then (1, s) else (1, c # s))"

text \<open>
  \<open>parseInt(s)\<close> without a radix: leading white space and a sign are skipped, a prefix
  \<open>0x\<close> or \<open>0X\<close> selects base 16, and the longest run of digits is read; no digit
  gives \<open>NaN\<close>.
\<close>

definition parseInt :: "string \<Rightarrow> jsnum" where
  "parseInt s =
     (let (sg, t) = take_sign (trimStart s) in
        if startsWith (toLowerCase (take 2 t)) ''0x'' then
          (let ds = takeWhile is_hex_digit (drop 2 t) in
             if ds = [] then NaN else Num (sg * real (hex_val ds)))
        else
          (let ds = takeWhile is_digit t in
             if ds = [] then NaN else Num (sg * real (dec_val ds))))"

text \<open>
  The exponent part of a decimal literal, if the text starts with one: \<open>e\<close> or \<open>E\<close>,
  an optional sign, and at least one digit. Returns the power of ten to multiply with and
  the text behind the exponent.
\<close>

definition exponent_part :: "string \<Rightarrow> real \<times> string" where
  "exponent_part s =
     (case s of
        [] \<Rightarrow> (1, s)
      | c # t \<Rightarrow>
          if c = CHR ''e'' \<or> c = CHR ''E'' then
            (let (sg, u) = take_sign t; ds = takeWhile is_digit u in
               if ds = [] then (1, s)
               else ((if sg < 0 then 1 / 10 ^ dec_val ds else 10 ^ dec_val ds), dropWhile is_digit u))
          else (1, s))"

text \<open>
  The longest prefix of a text that is a decimal literal (\<open>StrDecimalLiteral\<close>): a
  sign, then \<open>Infinity\<close>, or digits with an optional fraction and exponent, or a
  fraction that starts with the point. Returns its value and the text behind it.
\<close>

definition decimal_prefix :: "string \<Rightarrow> (jsnum \<times> string) option" where
  "decimal_prefix s =
     (let (sg, t) = take_sign s in
        if startsWith t ''Infinity'' then Some ((if sg < 0 then NInf else PInf), drop 8 t)
        else
          (let ip = takeWhile is_digit t;
               r1 = dropWhile is_digit t;
               has_point = (r1 \<noteq> [] \<and> hd r1 = CHR ''.'');
               fp = (if has_point then takeWhile is_digit (tl r1) else []);
               r2 = (if has_point then dropWhile is_digit (tl r1) else r1)
           in if ip = [] \<and> fp = [] then None
              else
                (case exponent_part r2 of
                   (p, r3) \<Rightarrow>
                     Some (Num (sg * (real (dec_val ip) + real (dec_val fp) / 10 ^ length fp) * p),
                           r3))))"

text \<open>
  \<open>parseFloat(s)\<close>: leading white space is skipped and the longest prefix that is a
  decimal literal is read; no such prefix gives \<open>NaN\<close>.
\<close>

definition parseFloat :: "string \<Rightarrow> jsnum" where
  "parseFloat s = (case decimal_prefix (trimStart s) of None \<Rightarrow> NaN | Some (v, r) \<Rightarrow> v)"

text \<open>
  \<open>Number(s)\<close> on a string: white space is trimmed on both sides, the empty string is
  0, and the whole text must be a numeric literal: hexadecimal, octal or binary with its
  prefix, or a decimal literal. Anything else is \<open>NaN\<close>.
\<close>

definition is_octal_digit :: "char \<Rightarrow> bool" where
  "is_octal_digit c = (let n = (of_char c :: nat) in 48 \<le> n \<and> n \<le> 55)"

definition is_binary_digit :: "char \<Rightarrow> bool" where
  "is_binary_digit c = (c = CHR ''0'' \<or> c = CHR ''1'')"

definition radix_val :: "nat \<Rightarrow> string \<Rightarrow> nat" where
  "radix_val r ds = foldl (\<lambda>a c. r * a + hex_digit_val c) 0 ds"

definition js_Number :: "string \<Rightarrow> jsnum" where
  "js_Number s =
     (let t = trim s; p = toLowerCase (take 2 t); ds = drop 2 t in
        if t = [] then Num 0
        else if p = ''0x'' then
          (if ds \<noteq> [] \<and> (\<forall>c \<in> set ds. is_hex_digit c) then Num (real (radix_val 16 ds)) else NaN)
        else if p = ''0o'' then
          (if ds \<noteq> [] \<and> (\<forall>c \<in> set ds. is_octal_digit c) then Num (real (radix_val 8 ds)) else NaN)
        else if p = ''0b'' then
          (if ds \<noteq> [] \<and> (\<forall>c \<in> set ds. is_binary_digit c) then Num (real (radix_val 2 ds)) else NaN)
        else
          (case decimal_prefix t of
             None \<Rightarrow> NaN
           | Some (v, r) \<Rightarrow> if r = [] then v else NaN))"

text \<open>The test of \<open>/^\d+(\.\d+)?$/\<close>: digits, and optionally a point and digits.\<close>

definition pure_number :: "string \<Rightarrow> bool" where
  "pure_number s =
     (let ip = takeWhile is_digit s; r = dropWhile is_digit s in
        ip \<noteq> [] \<and>
        (r = [] \<or> (hd r = CHR ''.'' \<and> tl r \<noteq> [] \<and> (\<forall>c \<in> set (tl r). is_digit c))))"

section \<open>JSON values\<close>

text \<open>
  The values \<open>JSON.parse\<close> returns. An object is the list of its own properties in
  the order in which \<open>Object.values\<close> enumerates them, with distinct keys.
  \<open>JSON.parse\<close> itself belongs to the platform and is a parameter of the parser
  functions below: \<open>None\<close> stands for the \<open>SyntaxError\<close> it throws.
\<close>

datatype json =
    JNull
  | JBool bool
  | JNum real
  | JStr string
  | JArr "json list"
  | JObj "(string \<times> json) list"

fun truthy :: "json \<Rightarrow> bool" where
  "truthy JNull = False"
| "truthy (JBool b) = b"
| "truthy (JNum n) = (n \<noteq> 0)"
| "truthy (JStr s) = (s \<noteq> [])"
| "truthy (JArr _) = True"
| "truthy (JObj _) = True"

text \<open>
  Reading a property: an absent property, and any property of a value that is not an
  object, is \<open>undefined\<close>, which the model identifies with \<open>null\<close> (both are
  falsy, and neither is a string or a number).
\<close>

fun json_field :: "json \<Rightarrow> string \<Rightarrow> json" where
  "json_field (JObj kvs) k = (case map_of kvs k of Some v \<Rightarrow> v | None \<Rightarrow> JNull)"
| "json_field _ k = JNull"

text \<open>A value that is neither an array nor an object.\<close>

definition is_scalar :: "json \<Rightarrow> bool" where
  "is_scalar v = (case v of JArr xs \<Rightarrow> False | JObj kvs \<Rightarrow> False | _ \<Rightarrow> True)"

fun join_comma :: "string list \<Rightarrow> string" where
  "join_comma [] = []"
| "join_comma [x] = x"
| "join_comma (x # y # ys) = x @ '','' @ join_comma (y # ys)"

text \<open>
  \<open>String(v)\<close>. The decimal representation of a number is the platform's and is the
  parameter \<open>fmt\<close>; an array is its elements joined by commas, with \<open>null\<close> as the
  empty string.
\<close>

fun js_String :: "(real \<Rightarrow> string) \<Rightarrow> json \<Rightarrow> string" where
  "js_String fmt JNull = ''null''"
| "js_String fmt (JBool b) = (if b then ''true'' else ''false'')"
| "js_String fmt (JNum n) = fmt n"
| "js_String fmt (JStr s) = s"
| "js_String fmt (JArr xs) =
     join_comma (map (\<lambda>x. if x = JNull then [] else js_String fmt x) xs)"
| "js_String fmt (JObj kvs) = ''[object Object]''"

section \<open>Timestamp parser (server.js, IndustryStandardVideoExtractor)\<close>

subsection \<open>timeToSeconds\<close>

text \<open>\<open>p || '0'\<close> on a string.\<close>

definition str_or_zero :: "string \<Rightarrow> string" where
  "str_or_zero p = (if p = [] then ''0'' else p)"

text \<open>
  The body of the source's \<open>try\<close> block calls only \<open>String\<close>, \<open>trim\<close>,
  \<open>split\<close>, \<open>parseInt\<close>, \<open>parseFloat\<close> and \<open>Math.max\<close>, none of which throws on a
  JSON value, so the \<open>catch\<close> branch is never taken and the function is total.
\<close>

definition timeToSeconds :: "(real \<Rightarrow> string) \<Rightarrow> json \<Rightarrow> jsnum" where
  "timeToSeconds fmt timeStr =
     (case timeStr of
        JNum n \<Rightarrow> Math_max (Num 0) (Num n)
      | _ \<Rightarrow>
        if \<not> truthy timeStr then Num 0
        else
          (let str = trim (js_String fmt timeStr) in
             if pure_number str then Math_max (Num 0) (parseFloat str)
             else
               (let parts = split_char (CHR '':'') str;
                    seconds =
                      (if length parts = 1 then parseFloat (str_or_zero (parts ! 0))
                       else if length parts = 2 then
                         (let minutes = parseInt (str_or_zero (parts ! 0));
                              secs = parseFloat (str_or_zero (parts ! 1))
                          in js_add (js_mul minutes (Num 60)) secs)
                       else if length parts = 3 then
                         (let hours = parseInt (str_or_zero (parts ! 0));
                              minutes = parseInt (str_or_zero (parts ! 1));
                              secs = parseFloat (str_or_zero (parts ! 2))
                          in js_add (js_add (js_mul hours (Num 3600)) (js_mul minutes (Num 60))) secs)
                       else Num 0);
                    result = Math_max (Num 0) seconds
                in if js_isNaN result then Num 0 else result)))"

subsection \<open>Transcript entries\<close>

record entry =
  e_text :: string
  e_start :: jsnum
  e_end :: jsnum
  e_confidence :: json

text \<open>The invariant of a transcript entry: \<open>end > start >= 0\<close>.\<close>

definition entry_ok :: "entry \<Rightarrow> bool" where
  "entry_ok e = (js_ge (e_start e) (Num 0) \<and> js_gt (e_end e) (e_start e))"

text \<open>\<open>obj.confidence || 1.0\<close>.\<close>

definition confidence_or_one :: "json \<Rightarrow> json" where
  "confidence_or_one obj =
     (if truthy (json_field obj ''confidence'') then json_field obj ''confidence'' else JNum 1)"

text \<open>
  \<open>timestamps.sort((a, b) => a.start - b.start)\<close>: the sort is stable, and \<open>b\<close>
  goes before \<open>a\<close> only where the difference is positive.
\<close>

fun insert_by_start :: "entry \<Rightarrow> entry list \<Rightarrow> entry list" where
  "insert_by_start x [] = [x]"
| "insert_by_start x (y # ys) =
     (if js_lt (e_start y) (e_start x) then y # insert_by_start x ys else x # y # ys)"

definition sort_by_start :: "entry list \<Rightarrow> entry list" where
  "sort_by_start xs = foldr insert_by_start xs []"

subsection \<open>Strategy 1: structured extraction\<close>

text \<open>
  The walker pushes onto the shared array \<open>timestamps\<close>; the model passes the array
  through and returns it with a flag that is \<open>True\<close> when the walk threw a
  \<open>TypeError\<close> (\<open>obj.text.trim()\<close> on a truthy \<open>text\<close> that is not a string). What
  was pushed before the exception stays in the array.
\<close>

fun extractTimestampsFromObject ::
    "(real \<Rightarrow> string) \<Rightarrow> json \<Rightarrow> entry list \<Rightarrow> entry list \<times> bool"
  and walk_items :: "(real \<Rightarrow> string) \<Rightarrow> json list \<Rightarrow> entry list \<Rightarrow> entry list \<times> bool"
  and walk_values ::
    "(real \<Rightarrow> string) \<Rightarrow> (string \<times> json) list \<Rightarrow> entry list \<Rightarrow> entry list \<times> bool"
where
  "extractTimestampsFromObject fmt (JArr xs) ts = walk_items fmt xs ts"
| "extractTimestampsFromObject fmt (JObj kvs) ts =
     (if truthy (json_field (JObj kvs) ''text'') \<and> truthy (json_field (JObj kvs) ''start'')
         \<and> truthy (json_field (JObj kvs) ''end'')
      then
        (let startTime = timeToSeconds fmt (json_field (JObj kvs) ''start'');
             endTime = timeToSeconds fmt (json_field (JObj kvs) ''end'')
         in if js_ge startTime (Num 0) \<and> js_gt endTime startTime then
              (case json_field (JObj kvs) ''text'' of
                 JStr s \<Rightarrow>
                   if length (trim s) > 0 then
                     (ts @ [\<lparr>e_text = trim s, e_start = startTime, e_end = endTime,
                             e_confidence = confidence_or_one (JObj kvs)\<rparr>], False)
                   else (ts, False)
               | _ \<Rightarrow> (ts, True))
            else (ts, False))
      else walk_values fmt kvs ts)"
| "extractTimestampsFromObject fmt JNull ts = (ts, False)"
| "extractTimestampsFromObject fmt (JBool b) ts = (ts, False)"
| "extractTimestampsFromObject fmt (JNum n) ts = (ts, False)"
| "extractTimestampsFromObject fmt (JStr s) ts = (ts, False)"
| "walk_items fmt [] ts = (ts, False)"
| "walk_items fmt (x # xs) ts =
     (case extractTimestampsFromObject fmt x ts of
        (ts', True) \<Rightarrow> (ts', True)
      | (ts', False) \<Rightarrow> walk_items fmt xs ts')"
| "walk_values fmt [] ts = (ts, False)"
| "walk_values fmt (kv # kvs) ts =
     (case extractTimestampsFromObject fmt (snd kv) ts of
        (ts', True) \<Rightarrow> (ts', True)
      | (ts', False) \<Rightarrow> walk_values fmt kvs ts')"

definition backslash :: char where "backslash = CHR 0x5C"
definition dquote :: char where "dquote = CHR 0x22"

text \<open>The position of the first character \<open>c\<close> in a text.\<close>

fun index_of :: "char \<Rightarrow> string \<Rightarrow> nat option" where
  "index_of c [] = None"
| "index_of c (d # s) =
     (if d = c then Some 0 else (case index_of c s of None \<Rightarrow> None | Some i \<Rightarrow> Some (Suc i)))"

text \<open>
  \<open>/\[.*?\]|\{.*?\}/gs\<close>: at an opening bracket, the shortest text up to the first
  closing bracket of the same kind.
\<close>

definition bracketed :: matcher where
  "bracketed s =
     (case s of
        [] \<Rightarrow> None
      | c # t \<Rightarrow>
          if c = CHR ''['' then (case index_of (CHR '']'') t of None \<Rightarrow> None | Some i \<Rightarrow> Some (i + 2))
          else if c = CHR ''{'' then (case index_of (CHR ''}'') t of None \<Rightarrow> None | Some i \<Rightarrow> Some (i + 2))
          else None)"

definition parseDirectJSON ::
    "(string \<Rightarrow> json option) \<Rightarrow> (real \<Rightarrow> string) \<Rightarrow> string \<Rightarrow> entry list" where
  "parseDirectJSON JSON_parse fmt content =
     (let cleaned =
            replace_all (lit [backslash, backslash]) [backslash]
              (replace_all (lit [backslash, CHR ''r'', backslash, CHR ''n'']) []
                (replace_all (lit [backslash, dquote]) [dquote] content));
          jsonMatches = match_all bracketed cleaned;
          timestamps =
            foldl (\<lambda>ts m. case JSON_parse m of
                              None \<Rightarrow> ts
                            | Some parsed \<Rightarrow> fst (extractTimestampsFromObject fmt parsed ts))
              [] jsonMatches
      in sort_by_start timestamps)"

subsection \<open>Strategy 2: line-oriented recovery\<close>

text \<open>\<open>content.split(/\r?\n/)\<close>.\<close>

fun split_lines :: "string \<Rightarrow> string list" where
  "split_lines [] = [[]]"
| "split_lines [c] = (if c = CHR 0x0A then [[], []] else [[c]])"
| "split_lines (c # d # s) =
     (if c = CHR 0x0A then [] # split_lines (d # s)
      else if c = CHR 0x0D \<and> d = CHR 0x0A then [] # split_lines s
      else (case split_lines (d # s) of
              [] \<Rightarrow> [[c]]
            | p # ps \<Rightarrow> (c # p) # ps))"

text \<open>\<open>trimmed.replace(/,$/, '')\<close>.\<close>

definition strip_trailing_comma :: "string \<Rightarrow> string" where
  "strip_trailing_comma s = (if s \<noteq> [] \<and> last s = CHR '','' then butlast s else s)"

text \<open>
  A key pattern such as \<open>/"text":\s*"([^"]+)"/\<close> at the start of a text: the key
  literal, white space, and a non-empty run of characters other than the quote, between
  quotes. Returns the captured run and the length of the match.
\<close>

definition quoted_at :: "string \<Rightarrow> string \<Rightarrow> (string \<times> nat) option" where
  "quoted_at k s =
     (if startsWith s k then
        (let a = drop (length k) s;
             nws = length (takeWhile js_ws a)
         in case dropWhile js_ws a of
              [] \<Rightarrow> None
            | c # t \<Rightarrow>
                if c = dquote then
                  (let v = takeWhile (\<lambda>x. x \<noteq> dquote) t;
                       rest = dropWhile (\<lambda>x. x \<noteq> dquote) t
                   in if v \<noteq> [] \<and> rest \<noteq> [] then Some (v, length k + nws + length v + 2)
                      else None)
                else None)
      else None)"

text \<open>\<open>line.match(...)\<close> with such a pattern: the capture of the leftmost match.\<close>

fun first_capture :: "string \<Rightarrow> string \<Rightarrow> string option" where
  "first_capture k [] = None"
| "first_capture k (c # s) =
     (case quoted_at k (c # s) of
        Some (v, n) \<Rightarrow> Some v
      | None \<Rightarrow> first_capture k s)"

definition key_text :: string where \<open>key_text = ''"text":''\<close>
definition key_start :: string where \<open>key_start = ''"start":''\<close>
definition key_end :: string where \<open>key_end = ''"end":''\<close>

definition extractFromPartialLine ::
    "(real \<Rightarrow> string) \<Rightarrow> string \<Rightarrow> entry list \<Rightarrow> entry list" where
  "extractFromPartialLine fmt line ts =
     (case first_capture key_text line of
        None \<Rightarrow> ts
      | Some textMatch \<Rightarrow>
          (case first_capture key_start line of
             None \<Rightarrow> ts
           | Some startMatch \<Rightarrow>
               (case first_capture key_end line of
                  None \<Rightarrow> ts
                | Some endMatch \<Rightarrow>
                    ts @ [\<lparr>e_text = trim textMatch,
                           e_start = timeToSeconds fmt (JStr startMatch),
                           e_end = timeToSeconds fmt (JStr endMatch),
                           e_confidence = JNum (7 / 10)\<rparr>])))"

text \<open>
  One turn of the loop of \<open>parseJSONStream\<close>. Reading a property of \<open>null\<close> and
  calling \<open>trim\<close> on a truthy \<open>text\<close> that is not a string throw inside the
  \<open>try\<close> block, as a failing \<open>JSON.parse\<close> does, and lead to the \<open>catch\<close> branch.
\<close>

definition stream_line ::
    "(string \<Rightarrow> json option) \<Rightarrow> (real \<Rightarrow> string) \<Rightarrow> entry list \<Rightarrow> string \<Rightarrow> entry list" where
  \<open>stream_line JSON_parse fmt ts line =
     (let trimmed = trim line in
        if trimmed = [] \<or> (\<not> js_includes trimmed ''"text"'' \<and> \<not> js_includes trimmed ''"start"'')
        then ts
        else
          (case JSON_parse (strip_trailing_comma trimmed) of
             None \<Rightarrow> extractFromPartialLine fmt trimmed ts
           | Some obj \<Rightarrow>
               if obj = JNull then extractFromPartialLine fmt trimmed ts
               else if truthy (json_field obj ''text'') \<and> truthy (json_field obj ''start'')
                       \<and> truthy (json_field obj ''end'')
               then
                 (case json_field obj ''text'' of
                    JStr s \<Rightarrow>
                      ts @ [\<lparr>e_text = trim s,
                             e_start = timeToSeconds fmt (json_field obj ''start''),
                             e_end = timeToSeconds fmt (json_field obj ''end''),
                             e_confidence = confidence_or_one obj\<rparr>]
                  | _ \<Rightarrow> extractFromPartialLine fmt trimmed ts)
               else ts))\<close>

definition parseJSONStream ::
    "(string \<Rightarrow> json option) \<Rightarrow> (real \<Rightarrow> string) \<Rightarrow> string \<Rightarrow> entry list" where
  "parseJSONStream JSON_parse fmt content =
     sort_by_start (foldl (stream_line JSON_parse fmt) [] (split_lines content))"

subsection \<open>Strategy 3: global regular expression\<close>

text \<open>A comma and white space at the start of a text: the length of both.\<close>

definition comma_ws :: "string \<Rightarrow> nat option" where
  "comma_ws s =
     (case s of
        [] \<Rightarrow> None
      | c # t \<Rightarrow> if c = CHR '','' then Some (1 + length (takeWhile js_ws t)) else None)"

text \<open>
  \<open>/"text":\s*"([^"]+)",\s*"start":\s*"([^"]+)",\s*"end":\s*"([^"]+)"/\<close> at the start
  of a text: the three captures and the length of the match.
\<close>

definition triple_at :: "string \<Rightarrow> ((string \<times> string \<times> string) \<times> nat) option" where
  "triple_at s =
     (case quoted_at key_text s of
        None \<Rightarrow> None
      | Some (t, n1) \<Rightarrow>
          (case comma_ws (drop n1 s) of
             None \<Rightarrow> None
           | Some m1 \<Rightarrow>
               (case quoted_at key_start (drop (n1 + m1) s) of
                  None \<Rightarrow> None
                | Some (st, n2) \<Rightarrow>
                    (case comma_ws (drop (n1 + m1 + n2) s) of
                       None \<Rightarrow> None
                     | Some m2 \<Rightarrow>
                         (case quoted_at key_end (drop (n1 + m1 + n2 + m2) s) of
                            None \<Rightarrow> None
                          | Some (en, n3) \<Rightarrow> Some ((t, st, en), n1 + m1 + n2 + m2 + n3))))))"

text \<open>The \<open>while\<close> loop over \<open>regex.exec(content)\<close>.\<close>

function validated_matches :: "(real \<Rightarrow> string) \<Rightarrow> string \<Rightarrow> entry list" where
  "validated_matches fmt [] = []"
| "validated_matches fmt (c # s) =
     (case triple_at (c # s) of
        None \<Rightarrow> validated_matches fmt s
      | Some ((text, start, end), n) \<Rightarrow>
          (let startTime = timeToSeconds fmt (JStr start);
               endTime = timeToSeconds fmt (JStr end)
           in (if js_ge startTime (Num 0) \<and> js_gt endTime startTime \<and> length (trim text) > 0
               then [\<lparr>e_text = trim text, e_start = startTime, e_end = endTime,
                      e_confidence = JNum (8 / 10)\<rparr>]
               else [])
              @ validated_matches fmt (drop (max 1 n) (c # s))))"
  by pat_completeness auto
termination
  by (relation "measure (\<lambda>(fmt, s). length s)") auto

definition parseWithValidation :: "(real \<Rightarrow> string) \<Rightarrow> string \<Rightarrow> entry list" where
  "parseWithValidation fmt content = sort_by_start (validated_matches fmt content)"

subsection \<open>parseTimestampsRobustly\<close>

definition parseTimestampsRobustly ::
    "(string \<Rightarrow> json option) \<Rightarrow> (real \<Rightarrow> string) \<Rightarrow> string \<Rightarrow> entry list" where
  "parseTimestampsRobustly JSON_parse fmt content =
     (let timestamps = parseDirectJSON JSON_parse fmt content in
        if length timestamps > 0 then timestamps
        else
          (let streamParsed = parseJSONStream JSON_parse fmt content in
             if length streamParsed > 0 then streamParsed
             else parseWithValidation fmt content))"

section \<open>Segmenter (server.js, IndustryStandardVideoExtractor)\<close>

subsection \<open>cosineSimilarity\<close>

text \<open>
  A vector is a list of finite numbers; \<open>None\<close> is \<open>null\<close> or \<open>undefined\<close>. The
  loop runs over the indices of \<open>a\<close>, which are in range for \<open>b\<close> because the
  lengths are equal when the loop is reached.
\<close>

definition cosine_sums :: "real list \<Rightarrow> real list \<Rightarrow> real \<times> real \<times> real" where
  "cosine_sums a b =
     foldl (\<lambda>(dotProduct, normA, normB) i.
              (dotProduct + a ! i * b ! i, normA + a ! i * a ! i, normB + b ! i * b ! i))
       (0, 0, 0) [0 ..< length a]"

text \<open>
  The dividend and the divisor of the division in the \<open>return\<close> statement; \<open>None\<close>
  when the guard returns 0 before the loop.
\<close>

definition cosine_operands :: "real list option \<Rightarrow> real list option \<Rightarrow> (jsnum \<times> jsnum) option" where
  "cosine_operands a b =
     (case a of
        None \<Rightarrow> None
      | Some xs \<Rightarrow>
          (case b of
             None \<Rightarrow> None
           | Some ys \<Rightarrow>
               if length xs \<noteq> length ys then None
               else
                 (case cosine_sums xs ys of
                    (dotProduct, normA, normB) \<Rightarrow>
                      Some (Num dotProduct, js_mul (Num (sqrt normA)) (Num (sqrt normB))))))"

definition cosineSimilarity :: "real list option \<Rightarrow> real list option \<Rightarrow> jsnum" where
  "cosineSimilarity a b =
     (case cosine_operands a b of
        None \<Rightarrow> Num 0
      | Some (dividend, divisor) \<Rightarrow> js_div dividend divisor)"

subsection \<open>Windows\<close>

record segment =
  seg_timestamps :: "entry list"
  seg_similarity :: jsnum
  seg_text :: string
  seg_startTime :: jsnum
  seg_endTime :: jsnum

text \<open>\<open>window.map(t => t.text).join(' ')\<close>.\<close>

fun join_space :: "string list \<Rightarrow> string" where
  "join_space [] = []"
| "join_space [x] = x"
| "join_space (x # y # ys) = x @ '' '' @ join_space (y # ys)"

text \<open>\<open>Math.min(...xs)\<close> and \<open>Math.max(...xs)\<close>.\<close>

definition Math_min_list :: "jsnum list \<Rightarrow> jsnum" where
  "Math_min_list xs = foldl Math_min PInf xs"

definition Math_max_list :: "jsnum list \<Rightarrow> jsnum" where
  "Math_max_list xs = foldl Math_max NInf xs"

text \<open>The check made before a window is pushed.\<close>

definition window_ok :: "entry list \<Rightarrow> bool" where
  "window_ok currentWindow =
     (length currentWindow > 1 \<and>
      js_gt (Math_max_list (map e_end currentWindow)) (Math_min_list (map e_start currentWindow)))"

text \<open>
  The state of the loop of \<open>createSlidingWindows\<close>: the windows pushed so far, the
  current window and \<open>windowStart\<close> (\<open>None\<close> is \<open>null\<close>). The test
  \<open>!windowStart\<close> is also true for a start of 0.
\<close>

definition window_step ::
    "real \<Rightarrow> entry list list \<times> entry list \<times> jsnum option \<Rightarrow> entry
       \<Rightarrow> entry list list \<times> entry list \<times> jsnum option" where
  "window_step windowDuration st timestamp =
     (case st of
        (windows, currentWindow, windowStart) \<Rightarrow>
          if js_le (e_end timestamp) (e_start timestamp) then st
          else if (case windowStart of None \<Rightarrow> True | Some w \<Rightarrow> \<not> num_truthy w) then
            (windows, [timestamp], Some (e_start timestamp))
          else if js_le (js_sub (e_start timestamp) (case windowStart of None \<Rightarrow> Num 0 | Some w \<Rightarrow> w))
                    (Num windowDuration) then
            (windows, currentWindow @ [timestamp], windowStart)
          else
            ((if window_ok currentWindow then windows @ [currentWindow] else windows),
             [timestamp], Some (e_start timestamp)))"

definition createSlidingWindows :: "entry list \<Rightarrow> real \<Rightarrow> entry list list" where
  "createSlidingWindows timestamps windowDuration =
     (case foldl (window_step windowDuration) ([], [], None) (sort_by_start timestamps) of
        (windows, currentWindow, windowStart) \<Rightarrow>
          if window_ok currentWindow then windows @ [currentWindow] else windows)"

text \<open>A window as a segment; \<open>window\<close> is not empty where this is used.\<close>

definition segment_of :: "entry list \<Rightarrow> jsnum \<Rightarrow> segment" where
  "segment_of window sim =
     \<lparr>seg_timestamps = window, seg_similarity = sim,
      seg_text = join_space (map e_text window),
      seg_startTime = e_start (hd window), seg_endTime = e_end (last window)\<rparr>"

function createFallbackSegments :: "entry list \<Rightarrow> segment list" where
  "createFallbackSegments timestamps =
     (if timestamps = [] then []
      else segment_of (take 8 timestamps) (Num (5 / 10)) # createFallbackSegments (drop 8 timestamps))"
  by pat_completeness auto
termination
  by (relation "measure length") auto

text \<open>
  \<open>scoredWindows.sort((a, b) => b.similarity - a.similarity)\<close>: stable, descending.
\<close>

fun insert_by_similarity :: "segment \<Rightarrow> segment list \<Rightarrow> segment list" where
  "insert_by_similarity x [] = [x]"
| "insert_by_similarity x (y # ys) =
     (if js_lt (seg_similarity x) (seg_similarity y) then y # insert_by_similarity x ys
      else x # y # ys)"

text \<open>
  \<open>getAWSEmbedding\<close> is a parameter: the vector for a text, or \<open>None\<close> when
  the call fails. Its cache, keyed by the first 100 characters of the text, is part
  of the parameter. Without a Bedrock client, or without an embedding of the query, the
  fixed-stride segments are returned.
\<close>

definition createSemanticSegments ::
    "bool \<Rightarrow> (string \<Rightarrow> real list option) \<Rightarrow> entry list \<Rightarrow> string \<Rightarrow> segment list" where
  "createSemanticSegments hasClient getAWSEmbedding timestamps query =
     (if \<not> hasClient then createFallbackSegments timestamps
      else
        (case getAWSEmbedding query of
           None \<Rightarrow> createFallbackSegments timestamps
         | Some queryEmbedding \<Rightarrow>
             (let windows = createSlidingWindows timestamps 45;
                  scoredWindows =
                    concat (map (\<lambda>window.
                      (let text = join_space (map e_text window) in
                         case getAWSEmbedding text of
                           None \<Rightarrow> []
                         | Some embedding \<Rightarrow>
                             (let similarity = cosineSimilarity (Some queryEmbedding) (Some embedding) in
                                if js_gt similarity (Num MIN_RELEVANCE_SCORE)
                                then [segment_of window similarity] else []))) windows)
              in take 6 (foldr insert_by_similarity scoredWindows []))))"

section \<open>Curator (server.js, IndustryStandardVideoExtractor)\<close>

text \<open>
  The judgment of the language model for one window, with the fields of the schema that
  the prompt asks for; an absent field is \<open>None\<close>.
\<close>

record analysis =
  relevance_score :: "real option"
  quality_score :: "real option"
  llm_title :: "string option"
  llm_description :: "string option"
  key_topics :: "string list option"
  optimal_start_offset :: "real option"
  optimal_end_offset :: "real option"
  include_clip :: bool
  llm_reasoning :: "string option"

record clip =
  title :: string
  description :: string
  videoPath :: string
  startTime :: jsnum
  endTime :: jsnum
  transcript :: "string option"
  relevanceScore :: jsnum
  qualityScore :: "jsnum option"
  keyTopics :: "string list option"
  sourceId :: string
  aiGenerated :: bool
  reasoning :: "string option"
  originalDuration :: "jsnum option"
  optimizedDuration :: "jsnum option"
  isFallback :: bool

text \<open>
  What \<open>callClaudeViaAWS\<close> can see of the model call: the call fails, the reply is
  no JSON, or the reply is a judgment. It never throws and never returns \<open>null\<close>: a
  failure is answered with one of two fixed judgments.
\<close>

datatype 'a bedrock_reply = ApiError | Unparseable | Parsed 'a

definition parse_fallback :: analysis where
  "parse_fallback =
     \<lparr>relevance_score = Some (7 / 10), quality_score = Some (7 / 10),
      llm_title = Some ''Relevant Content'',
      llm_description = Some ''This content appears relevant to your query.'',
      key_topics = Some [''general''],
      optimal_start_offset = Some 0, optimal_end_offset = Some 0,
      include_clip = True,
      llm_reasoning = Some ''Fallback due to JSON parsing issues''\<rparr>"

definition api_fallback :: analysis where
  "api_fallback =
     \<lparr>relevance_score = Some (6 / 10), quality_score = Some (6 / 10),
      llm_title = Some ''Content from Transcript'',
      llm_description = Some ''Unable to analyze with AI, but content may be relevant.'',
      key_topics = Some [''general''],
      optimal_start_offset = Some 0, optimal_end_offset = Some 0,
      include_clip = True,
      llm_reasoning = Some ''Fallback due to API error''\<rparr>"

definition callClaudeViaAWS :: "analysis bedrock_reply \<Rightarrow> analysis" where
  "callClaudeViaAWS reply =
     (case reply of
        ApiError \<Rightarrow> api_fallback
      | Unparseable \<Rightarrow> parse_fallback
      | Parsed a \<Rightarrow> a)"

text \<open>\<open>text.split(/[.!?]+/)\<close>.\<close>

definition sentence_end :: "char \<Rightarrow> bool" where
  "sentence_end c = (c = CHR ''.'' \<or> c = CHR ''!'' \<or> c = CHR ''?'')"

function split_runs :: "(char \<Rightarrow> bool) \<Rightarrow> string \<Rightarrow> string list" where
  "split_runs P [] = [[]]"
| "split_runs P (c # s) =
     (if P c then [] # split_runs P (dropWhile P s)
      else (case split_runs P s of
              [] \<Rightarrow> [[c]]
            | p # ps \<Rightarrow> (c # p) # ps))"
  by pat_completeness auto
termination
  by (relation "measure (\<lambda>(P, s). length s)") (auto simp: length_dropWhile_le less_Suc_eq_le)

definition generateFallbackTitle :: "string \<Rightarrow> string" where
  "generateFallbackTitle text =
     (case filter (\<lambda>s. length (trim s) > 10) (split_runs sentence_end text) of
        s0 # _ \<Rightarrow>
          (let sentence = trim s0 in
             if length sentence > 60 then substring0 60 sentence @ ''...'' else sentence)
      | [] \<Rightarrow> substring0 60 text @ ''...'')"

definition generateFallbackDescription :: "string \<Rightarrow> string" where
  "generateFallbackDescription text =
     (if length text > 200 then substring0 200 text @ ''...'' else text)"

text \<open>\<open>x || d\<close> on an optional string.\<close>

definition str_opt_or :: "string option \<Rightarrow> string \<Rightarrow> string" where
  "str_opt_or x d = (case x of None \<Rightarrow> d | Some v \<Rightarrow> if v = [] then d else v)"

definition createBasicClip :: "segment \<Rightarrow> string \<Rightarrow> clip" where
  "createBasicClip segment videoFile =
     \<lparr>title = generateFallbackTitle (seg_text segment),
      description = generateFallbackDescription (seg_text segment),
      videoPath = ''/videos/'' @ videoFile,
      startTime = Math_max (Num 0) (js_sub (seg_startTime segment) (Num 2)),
      endTime = js_add (seg_endTime segment) (Num 2),
      transcript = Some (seg_text segment),
      relevanceScore = num_or (seg_similarity segment) (Num (5 / 10)),
      qualityScore = None, keyTopics = None,
      sourceId = videoFile,
      aiGenerated = False, reasoning = None,
      originalDuration = None, optimizedDuration = None,
      isFallback = False\<rparr>"

definition createValidClip :: "segment \<Rightarrow> string \<Rightarrow> string \<Rightarrow> analysis \<Rightarrow> clip" where
  "createValidClip segment videoFile transcript' analysis =
     (let finalStart = Math_max (Num 0) (js_sub (seg_startTime segment) (Num CONTEXT_BUFFER));
          finalEnd = js_add (seg_endTime segment) (Num CONTEXT_BUFFER)
      in \<lparr>title = str_opt_or (llm_title analysis) (generateFallbackTitle transcript'),
          description = str_opt_or (llm_description analysis) (generateFallbackDescription transcript'),
          videoPath = ''/videos/'' @ videoFile,
          startTime = finalStart,
          endTime = finalEnd,
          transcript = Some transcript',
          relevanceScore = opt_num_or (relevance_score analysis) (7 / 10),
          qualityScore = Some (opt_num_or (quality_score analysis) (7 / 10)),
          keyTopics = Some (case key_topics analysis of None \<Rightarrow> [] | Some ks \<Rightarrow> ks),
          sourceId = videoFile,
          aiGenerated = True,
          reasoning = Some ''Used original timestamps due to optimization failure'',
          originalDuration = None, optimizedDuration = None,
          isFallback = False\<rparr>)"

text \<open>
  The model call is the parameter \<open>llm\<close>; the prompt is built from the segment, the
  query and the response, so the reply is given as a function of these. With the typed
  judgment nothing in the source's \<open>try\<close> block throws, so its \<open>catch\<close> branch
  (a basic clip) is reached only through the missing client.
\<close>

definition enhanceClipWithLLM ::
    "bool \<Rightarrow> (segment \<Rightarrow> string \<Rightarrow> string \<Rightarrow> analysis bedrock_reply)
       \<Rightarrow> segment \<Rightarrow> string \<Rightarrow> string \<Rightarrow> string \<Rightarrow> clip option" where
  "enhanceClipWithLLM hasClient llm segment videoFile userQuery agentResponse =
     (if \<not> hasClient then Some (createBasicClip segment videoFile)
      else
        (let transcript' = seg_text segment;
             duration = js_sub (seg_endTime segment) (seg_startTime segment)
         in if js_le duration (Num 0) then None
            else
              (let analysis = callClaudeViaAWS (llm segment userQuery agentResponse) in
                 if include_clip analysis
                    \<and> (case relevance_score analysis of None \<Rightarrow> False | Some r \<Rightarrow> MIN_LLM_SCORE \<le> r)
                 then
                   (let rawStartOffset = Math_max (Num 0) (opt_num_or (optimal_start_offset analysis) 0);
                        rawEndOffset = Math_max (Num 0) (opt_num_or (optimal_end_offset analysis) 0);
                        maxOffset = Math_max (Num 0) (js_sub duration (Num 5));
                        startOffset = Math_min rawStartOffset maxOffset;
                        endOffset = Math_min rawEndOffset maxOffset;
                        optimizedStart = js_add (seg_startTime segment) startOffset;
                        optimizedEnd = js_sub (seg_endTime segment) endOffset
                    in if js_le optimizedEnd optimizedStart then
                         Some (createValidClip segment videoFile transcript' analysis)
                       else
                         (let finalStart = Math_max (Num 0) (js_sub optimizedStart (Num CONTEXT_BUFFER));
                              finalEnd = js_add optimizedEnd (Num CONTEXT_BUFFER)
                          in Some
                               \<lparr>title = str_opt_or (llm_title analysis) (generateFallbackTitle transcript'),
                                description = str_opt_or (llm_description analysis)
                                                (generateFallbackDescription transcript'),
                                videoPath = ''/videos/'' @ videoFile,
                                startTime = finalStart,
                                endTime = finalEnd,
                                transcript = Some transcript',
                                relevanceScore =
                                  (case relevance_score analysis of None \<Rightarrow> NaN | Some r \<Rightarrow> Num r),
                                qualityScore = map_option Num (quality_score analysis),
                                keyTopics = Some (case key_topics analysis of None \<Rightarrow> [] | Some ks \<Rightarrow> ks),
                                sourceId = videoFile,
                                aiGenerated = True,
                                reasoning = llm_reasoning analysis,
                                originalDuration = Some duration,
                                optimizedDuration = Some (js_sub finalEnd finalStart),
                                isFallback = False\<rparr>))
                 else None)))"

text \<open>
  \<open>clips.sort((a, b) => (b.relevanceScore || 0) - (a.relevanceScore || 0))\<close>: stable,
  descending.
\<close>

fun insert_by_relevance :: "clip \<Rightarrow> clip list \<Rightarrow> clip list" where
  "insert_by_relevance x [] = [x]"
| "insert_by_relevance x (y # ys) =
     (if js_lt (num_or (relevanceScore x) (Num 0)) (num_or (relevanceScore y) (Num 0))
      then y # insert_by_relevance x ys
      else x # y # ys)"

definition sort_by_relevance :: "clip list \<Rightarrow> clip list" where
  "sort_by_relevance clips = foldr insert_by_relevance clips []"

text \<open>
  The ranking reply of the model: \<open>selected_clips\<close> as a list of indices, or \<open>None\<close>
  when the field is absent or unusable (reading it then throws, and the \<open>catch\<close>
  branch falls through to the sort by relevance). An index that is no position of
  \<open>clips\<close> yields \<open>undefined\<close>, which \<open>filter(Boolean)\<close> drops.
\<close>

definition clip_at :: "clip list \<Rightarrow> int \<Rightarrow> clip list" where
  "clip_at clips i = (if 0 \<le> i \<and> nat i < length clips then [clips ! nat i] else [])"

definition optimizeClipsWithLLM ::
    "bool \<Rightarrow> (clip list \<Rightarrow> string \<Rightarrow> string \<Rightarrow> int list option bedrock_reply)
       \<Rightarrow> clip list \<Rightarrow> string \<Rightarrow> string \<Rightarrow> clip list" where
  "optimizeClipsWithLLM hasClient rank clips userQuery agentResponse =
     (if \<not> hasClient \<or> length clips = 0 then take MAX_CLIPS clips
      else
        (let clips' = (if length clips > 8 then take 8 (sort_by_relevance clips) else clips) in
           case rank clips' userQuery agentResponse of
             Parsed (Some selected_clips) \<Rightarrow>
               concat (map (clip_at clips') (take MAX_CLIPS selected_clips))
           | _ \<Rightarrow> take MAX_CLIPS (sort_by_relevance clips')))"

section \<open>Video file resolver (server.js, IndustryStandardVideoExtractor)\<close>

definition videoExtensions :: "string list" where
  "videoExtensions = [''.mp4'', ''.avi'', ''.mov'', ''.mkv'', ''.webm'']"

text \<open>
  The directory listing is a parameter: \<open>None\<close> when \<open>readdir\<close> fails, which
  \<open>findAllVideoFiles\<close> answers with the empty list.
\<close>

definition findAllVideoFiles :: "string list option \<Rightarrow> string list" where
  "findAllVideoFiles readdir =
     (case readdir of
        None \<Rightarrow> []
      | Some files \<Rightarrow>
          filter (\<lambda>file. \<exists>ext \<in> set videoExtensions. endsWith (toLowerCase file) ext) files)"

text \<open>\<open>file.replace(/\.(mp4|avi|mov|mkv|webm)$/i, '')\<close>.\<close>

definition strip_video_ext :: "string \<Rightarrow> string" where
  "strip_video_ext file =
     (case filter (\<lambda>ext. endsWith (toLowerCase file) ext) videoExtensions of
        [] \<Rightarrow> file
      | ext # _ \<Rightarrow> take (length file - length ext) file)"

text \<open>
  The name the resolver looks for: the last path segment of the URI, with the first
  occurrence of \<open>_sentences.json\<close> removed.
\<close>

definition s3Filename :: "string \<Rightarrow> string" where
  "s3Filename s3Uri =
     (let uriParts = split_char (CHR ''/'') s3Uri
      in replace_first (lit ''_sentences.json'') [] (last uriParts))"

definition findVideoFile :: "string list option \<Rightarrow> string \<Rightarrow> string option" where
  "findVideoFile readdir s3Uri =
     (if s3Uri = [] then None
      else
        (let files = findAllVideoFiles readdir in
           if length files = 0 then None
           else find (\<lambda>file. strip_video_ext file = s3Filename s3Uri) files))"

section \<open>Fallback clips and the curation pipeline\<close>

text \<open>\<open>/\d{8}_\d{6}/\<close>.\<close>

definition date_time_stamp :: matcher where
  "date_time_stamp s =
     (if length s \<ge> 15 \<and> (\<forall>c \<in> set (take 8 s). is_digit c) \<and> s ! 8 = CHR ''_''
         \<and> (\<forall>c \<in> set (take 6 (drop 9 s)). is_digit c)
      then Some 15 else None)"

text \<open>\<open>/Meeting\s+(Recording|Transcript)/i\<close>.\<close>

definition meeting_word :: matcher where
  "meeting_word s =
     (if lit_i ''meeting'' s then
        (let a = drop 7 s; nws = length (takeWhile js_ws a); b = dropWhile js_ws a in
           if nws = 0 then None
           else if lit_i ''recording'' b then Some (7 + nws + 9)
           else if lit_i ''transcript'' b then Some (7 + nws + 10)
           else None)
      else None)"

definition getVideoDisplayName :: "string \<Rightarrow> string" where
  "getVideoDisplayName filename =
     trim (replace_first meeting_word []
            (replace_first date_time_stamp []
              (map (\<lambda>c. if c = CHR ''-'' \<or> c = CHR ''_'' then CHR '' '' else c)
                (strip_video_ext filename))))"

definition fallback_clip :: "string \<Rightarrow> string \<Rightarrow> nat \<Rightarrow> clip" where
  "fallback_clip userQuery videoFile i =
     \<lparr>title = ''Relevant Content: '' @ getVideoDisplayName videoFile,
      description = ''This segment may contain information related to: '' @ [dquote] @ userQuery @ [dquote],
      videoPath = ''/videos/'' @ videoFile,
      startTime = Num (real i * 45),
      endTime = Num (real i * 45 + 60),
      transcript = None,
      relevanceScore = Num (4 / 10 - real i * (1 / 10)),
      qualityScore = None, keyTopics = None,
      sourceId = videoFile,
      aiGenerated = False, reasoning = None,
      originalDuration = None, optimizedDuration = None,
      isFallback = True\<rparr>"

definition createIntelligentFallbacks :: "string list option \<Rightarrow> string \<Rightarrow> string \<Rightarrow> clip list" where
  "createIntelligentFallbacks readdir userQuery agentResponse =
     (let videoFiles = findAllVideoFiles readdir in
        map (\<lambda>i. fallback_clip userQuery (videoFiles ! i) i) [0 ..< min (length videoFiles) 2])"

text \<open>
  A retrieved reference: the transcript text and the storage URI, either of which may be
  absent. The agent trace is the list of its events, each with the references of its
  knowledge-base lookup if it has one; \<open>None\<close> is a request without a trace.
\<close>

record reference =
  ref_content :: "string option"
  ref_uri :: "string option"

type_synonym agent_trace = "reference list option list"

definition extractStructuredReferences :: "agent_trace \<Rightarrow> reference list" where
  "extractStructuredReferences trace =
     concat (map (\<lambda>event. case event of None \<Rightarrow> [] | Some kbRefs \<Rightarrow> kbRefs) trace)"

text \<open>The collaborators of one request.\<close>

record collaborators =
  hasClient :: bool
  JSON_parse :: "string \<Rightarrow> json option"
  number_format :: "real \<Rightarrow> string"
  readdir :: "string list option"
  getAWSEmbedding :: "string \<Rightarrow> real list option"
  judge :: "segment \<Rightarrow> string \<Rightarrow> string \<Rightarrow> analysis bedrock_reply"
  rank :: "clip list \<Rightarrow> string \<Rightarrow> string \<Rightarrow> int list option bedrock_reply"

text \<open>The body of the callback of \<open>createSemanticClips\<close> for one reference.\<close>

definition clips_of_reference :: "collaborators \<Rightarrow> string \<Rightarrow> string \<Rightarrow> reference \<Rightarrow> clip list" where
  "clips_of_reference env userQuery agentResponse ref =
     (case ref_content ref of
        None \<Rightarrow> []
      | Some content \<Rightarrow>
          (case ref_uri ref of
             None \<Rightarrow> []
           | Some s3Uri \<Rightarrow>
               if content = [] \<or> s3Uri = [] then []
               else
                 (let timestamps = parseTimestampsRobustly (JSON_parse env) (number_format env) content in
                    if length timestamps = 0 then []
                    else
                      (case findVideoFile (readdir env) s3Uri of
                         None \<Rightarrow> []
                       | Some videoFile \<Rightarrow>
                           if videoFile = [] then []
                           else
                             (let segments = createSemanticSegments (hasClient env) (getAWSEmbedding env)
                                               timestamps userQuery
                              in concat (map (\<lambda>segment.
                                   case enhanceClipWithLLM (hasClient env) (judge env) segment videoFile
                                          userQuery agentResponse of
                                     None \<Rightarrow> []
                                   | Some c \<Rightarrow> [c]) segments))))))"

definition createSemanticClips ::
    "collaborators \<Rightarrow> reference list \<Rightarrow> string \<Rightarrow> string \<Rightarrow> clip list" where
  "createSemanticClips env references userQuery agentResponse =
     concat (map (clips_of_reference env userQuery agentResponse) references)"

text \<open>
  \<open>extractRelevantClips\<close>, the operation \<open>curateClips\<close> of the specification. The
  parameter \<open>sources\<close> of the source is not read and is left out.
\<close>

definition extractRelevantClips ::
    "collaborators \<Rightarrow> agent_trace option \<Rightarrow> string \<Rightarrow> string \<Rightarrow> clip list" where
  "extractRelevantClips env agentTrace agentResponse userQuery =
     (let clips1 =
            (case agentTrace of
               None \<Rightarrow> []
             | Some trace \<Rightarrow>
                 createSemanticClips env (extractStructuredReferences trace) userQuery agentResponse);
          clips2 =
            (if length clips1 > 0 \<and> hasClient env
             then optimizeClipsWithLLM (hasClient env) (rank env) clips1 userQuery agentResponse
             else clips1)
      in if length clips2 = 0
         then createIntelligentFallbacks (readdir env) userQuery agentResponse
         else clips2)"

section \<open>Frame extractor (server.js, FrameExtractor)\<close>

text \<open>
  The requested timestamp and the probed duration are finite numbers. The timestamp is
  pulled back when it lies at or behind the end, and is then raised to at least one
  second.
\<close>

definition adjustedTimestamp :: "real \<Rightarrow> real \<Rightarrow> real" where
  "adjustedTimestamp timestamp duration =
     max 1 (if timestamp \<ge> duration then max 0 (duration - 5) else timestamp)"

record strategy =
  strategy_name :: string
  timestamps :: "real list"

definition extractionStrategies :: "real \<Rightarrow> real \<Rightarrow> strategy list" where
  "extractionStrategies timestamp duration =
     (let adjusted = adjustedTimestamp timestamp duration in
        [\<lparr>strategy_name = ''primary'', timestamps = [adjusted]\<rparr>,
         \<lparr>strategy_name = ''range'',
          timestamps = filter (\<lambda>t. t > 0 \<and> t < duration)
                         [max 1 (adjusted - 1), adjusted, min (duration - 1) (adjusted + 1)]\<rparr>,
         \<lparr>strategy_name = ''safe'',
          timestamps = filter (\<lambda>t. t > 0 \<and> t < duration)
                         [max 1 (duration * (1 / 10)), max 1 (duration * (3 / 10)),
                          max 1 (duration * (5 / 10))]\<rparr>])"

text \<open>
  What a strategy hands to the transcoder as the seek position: the first of its
  timestamps, \<open>undefined\<close> (\<open>None\<close>) when the filter left none.
\<close>

definition seek_of :: "strategy \<Rightarrow> real option" where
  "seek_of st = (case timestamps st of [] \<Rightarrow> None | t # _ \<Rightarrow> Some t)"

text \<open>
  The transcoder is a parameter: for a seek position, the size in bytes of the file it
  wrote, or \<open>None\<close> when it failed, timed out or wrote no file. The loop tries the
  strategies in order and stops at the first file of more than 1000 bytes. The result is
  the list of the seek positions handed to the transcoder and whether a frame was made.
\<close>

fun run_strategies :: "(real option \<Rightarrow> nat option) \<Rightarrow> strategy list \<Rightarrow> real option list \<times> bool" where
  "run_strategies transcode [] = ([], False)"
| "run_strategies transcode (st # sts) =
     (if (case transcode (seek_of st) of None \<Rightarrow> False | Some bytes \<Rightarrow> bytes > 1000)
      then ([seek_of st], True)
      else (case run_strategies transcode sts of (seeks, ok) \<Rightarrow> (seek_of st # seeks, ok)))"

text \<open>
  One call of \<open>extractFrame\<close> on an empty cache, with its retries (at most three, each
  running the strategies again). \<open>videoExists\<close> is the outcome of the access check,
  \<open>probed\<close> that of the duration probe (\<open>None\<close> when the probe fails). A missing
  file and a failed or non-positive duration end the call at once, without a retry.
\<close>

function extractFrame ::
    "(real option \<Rightarrow> nat option) \<Rightarrow> bool \<Rightarrow> real option \<Rightarrow> real \<Rightarrow> nat \<Rightarrow> real option list \<times> bool" where
  "extractFrame transcode videoExists probed timestamp retryCount =
     (if \<not> videoExists then ([], False)
      else
        (case probed of
           None \<Rightarrow> ([], False)
         | Some duration \<Rightarrow>
             if duration \<le> 0 then ([], False)
             else
               (case run_strategies transcode (extractionStrategies timestamp duration) of
                  (seeks, ok) \<Rightarrow>
                    if ok then (seeks, True)
                    else if retryCount < 3 then
                      (case extractFrame transcode videoExists probed timestamp (retryCount + 1) of
                         (seeks', ok') \<Rightarrow> (seeks @ seeks', ok'))
                    else (seeks, False))))"
  by pat_completeness auto
termination
  by (relation "measure (\<lambda>(transcode, videoExists, probed, timestamp, retryCount). 3 - retryCount)") auto

section \<open>Assembler (video\_generator.js, VideoGenerator)\<close>

subsection \<open>Timestamp normalization\<close>

text \<open>
  A raw timestamp is a number or a string. \<open>undefined\<close> behaves as the number
  \<open>NaN\<close> here (\<open>Number(undefined) || 0\<close> is 0).
\<close>

datatype raw_time = RawNum jsnum | RawStr string

definition normalizeTimestamp :: "raw_time \<Rightarrow> jsnum" where
  "normalizeTimestamp timestamp =
     (let colon_form =
            (case timestamp of
               RawNum n \<Rightarrow> None
             | RawStr str \<Rightarrow>
                 if CHR '':'' \<in> set str then
                   (let parts = map js_Number (split_char (CHR '':'') str) in
                      if length parts = 2 then
                        Some (js_add (js_mul (parts ! 0) (Num 60)) (parts ! 1))
                      else if length parts = 3 then
                        Some (js_add (js_add (js_mul (parts ! 0) (Num 3600)) (js_mul (parts ! 1) (Num 60)))
                                (parts ! 2))
                      else None)
                 else None)
      in case colon_form of
           Some r \<Rightarrow> r
         | None \<Rightarrow>
             (let num = num_or (case timestamp of RawNum n \<Rightarrow> n | RawStr str \<Rightarrow> parseFloat str) (Num 0)
              in if js_gt num (Num 1000000000000) then Num 30
                 else if js_gt num (Num 10000) \<and> js_lt num (Num 1000000000) then js_div num (Num 1000)
                 else Math_max (Num 0) num))"


definition js_isFinite :: "jsnum \<Rightarrow> bool" where
  "js_isFinite a = (case a of Num x \<Rightarrow> True | _ \<Rightarrow> False)"

definition normalizeTimes :: "raw_time \<Rightarrow> raw_time \<Rightarrow> jsnum \<Rightarrow> jsnum \<times> jsnum" where
  "normalizeTimes rawStart rawEnd videoDurationSec =
     (let start = normalizeTimestamp rawStart;
          end0 = normalizeTimestamp rawEnd;
          end1 = (if js_le end0 start then js_add start (Num 5) else end0);
          minDuration = Num 3;
          end2 = (if js_lt (js_sub end1 start) minDuration then js_add start minDuration else end1)
      in if js_isFinite videoDurationSec \<and> js_gt videoDurationSec (Num 0) then
           (let safeEndBuffer = Num 2;
                maxEnd = js_sub videoDurationSec safeEndBuffer;
                end3 = (if js_gt end2 maxEnd then maxEnd else end2);
                start3 = (if js_gt end2 maxEnd
                          then Math_max (Num 0) (js_sub maxEnd (js_sub end2 start)) else start);
                start4 = Math_max (Num 0) (Math_min start3 (js_sub maxEnd minDuration));
                end4 = Math_max (js_add start4 minDuration) (Math_min end3 maxEnd)
            in (start4, end4))
         else (start, end2))"

subsection \<open>Deduplication of assembly segments\<close>

record assembly_segment =
  as_type :: "string option"
  as_videoPath :: "string option"
  as_text :: "string option"
  as_startTime :: jsnum
  as_endTime :: jsnum
  as_relevanceScore :: "jsnum option"
  as_qualityScore :: "jsnum option"
  as_title :: "string option"
  as_description :: "string option"
  as_keyTopics :: "string list option"
  as_duration :: "jsnum option"
  as_sectionTitle :: "string option"
  as_stepNumber :: "jsnum option"

text \<open>\<open>Math.round\<close>: the nearest integer, halves upwards.\<close>

definition Math_round :: "jsnum \<Rightarrow> jsnum" where
  "Math_round a = (case a of Num x \<Rightarrow> Num (of_int \<lfloor>x + 1 / 2\<rfloor>) | _ \<Rightarrow> a)"

text \<open>
  A number inside a template literal. The digits of a finite number are the platform's
  (the parameter \<open>fmt\<close>).
\<close>

definition num_string :: "(real \<Rightarrow> string) \<Rightarrow> jsnum \<Rightarrow> string" where
  "num_string fmt a =
     (case a of Num x \<Rightarrow> fmt x | PInf \<Rightarrow> ''Infinity'' | NInf \<Rightarrow> ''-Infinity'' | NaN \<Rightarrow> ''NaN'')"

text \<open>Truthiness of an optional string, list and number.\<close>

definition str_truthy :: "string option \<Rightarrow> bool" where
  "str_truthy x = (case x of None \<Rightarrow> False | Some v \<Rightarrow> v \<noteq> [])"

definition opt_jsnum_or :: "jsnum option \<Rightarrow> jsnum \<Rightarrow> jsnum" where
  "opt_jsnum_or x d = (case x of None \<Rightarrow> d | Some v \<Rightarrow> num_or v d)"

text \<open>
  \<open>getSegmentKey\<close> is called only for a segment whose \<open>videoPath\<close> is a non-empty
  string. The pattern \<open>/^\/videos\//\<close> removes the prefix \<open>/videos/\<close>.
\<close>

definition getSegmentKey :: "(real \<Rightarrow> string) \<Rightarrow> assembly_segment \<Rightarrow> string" where
  "getSegmentKey fmt segment =
     (let vp = (case as_videoPath segment of None \<Rightarrow> [] | Some v \<Rightarrow> v);
          videoPath' = (if startsWith vp ''/videos/'' then drop 8 vp else vp);
          text = (case as_text segment of None \<Rightarrow> [] | Some t \<Rightarrow> t);
          timing = num_string fmt (Math_round (as_startTime segment)) @ ''-''
                     @ num_string fmt (Math_round (as_endTime segment))
      in videoPath' @ '':'' @ timing @ '':'' @ substring0 50 text)"

definition js_abs :: "jsnum \<Rightarrow> jsnum" where
  "js_abs a = (case a of Num x \<Rightarrow> Num \<bar>x\<bar> | NInf \<Rightarrow> PInf | _ \<Rightarrow> a)"

definition getScore :: "assembly_segment \<Rightarrow> jsnum" where
  "getScore seg =
     (let optimalDuration = Num 30;
          score1 = js_add (Num 0) (js_mul (opt_jsnum_or (as_relevanceScore seg) (Num 0)) (Num 2));
          score2 = js_add score1 (js_mul (opt_jsnum_or (as_qualityScore seg) (Num 0)) (Num 2));
          duration = js_sub (as_endTime seg) (as_startTime seg);
          durationScore =
            js_sub (Num 1)
              (Math_min (Num 1) (js_div (js_abs (js_sub duration optimalDuration)) optimalDuration));
          score3 = js_add score2 durationScore;
          hasMetadata =
            Num (real (length (filter id
                   [str_truthy (as_title seg), str_truthy (as_description seg),
                    as_keyTopics seg \<noteq> None])) / 3)
      in js_add score3 hasMetadata)"

definition isBetterSegment :: "assembly_segment \<Rightarrow> assembly_segment \<Rightarrow> bool" where
  "isBetterSegment newSeg existingSeg = js_gt (getScore newSeg) (getScore existingSeg)"

text \<open>\<open>uniqueSegments.indexOf(existing)\<close>.\<close>

fun indexOf :: "'a list \<Rightarrow> 'a \<Rightarrow> nat option" where
  "indexOf [] x = None"
| "indexOf (y # ys) x =
     (if y = x then Some 0 else (case indexOf ys x of None \<Rightarrow> None | Some i \<Rightarrow> Some (Suc i)))"

definition special_type :: "string option \<Rightarrow> bool" where
  "special_type t =
     (t = Some ''title'' \<or> t = Some ''section_title'' \<or> t = Some ''transition''
      \<or> t = Some ''conclusion'')"

text \<open>
  One turn of the loop of \<open>deduplicateSegments\<close>, on the map \<open>seen\<close> and the array
  \<open>uniqueSegments\<close>. An element of the input that is \<open>null\<close> is \<open>None\<close>.
\<close>

definition dedup_step ::
    "(real \<Rightarrow> string)
       \<Rightarrow> (string \<rightharpoonup> assembly_segment) \<times> assembly_segment list
       \<Rightarrow> assembly_segment option
       \<Rightarrow> (string \<rightharpoonup> assembly_segment) \<times> assembly_segment list" where
  "dedup_step fmt st seg =
     (case st of
        (seen, uniqueSegments) \<Rightarrow>
          (case seg of
             None \<Rightarrow> st
           | Some segment \<Rightarrow>
               if as_type segment = Some ''content'' \<and> \<not> str_truthy (as_videoPath segment) then st
               else if special_type (as_type segment) then (seen, uniqueSegments @ [segment])
               else if as_type segment = Some ''content'' then
                 (let key = getSegmentKey fmt segment in
                    case seen key of
                      None \<Rightarrow> (seen(key \<mapsto> segment), uniqueSegments @ [segment])
                    | Some existing \<Rightarrow>
                        if isBetterSegment segment existing then
                          (case indexOf uniqueSegments existing of
                             None \<Rightarrow> st
                           | Some index \<Rightarrow>
                               (seen(key \<mapsto> segment), uniqueSegments[index := segment]))
                        else st)
               else st))"

definition deduplicateSegments ::
    "(real \<Rightarrow> string) \<Rightarrow> assembly_segment option list \<Rightarrow> assembly_segment list" where
  "deduplicateSegments fmt segments = snd (foldl (dedup_step fmt) (Map.empty, []) segments)"

subsection \<open>Invariants of the deduplication loop\<close>

text \<open>
  The segments the loop files under a key are the content segments with a video path.
\<close>

definition valid_content :: "assembly_segment \<Rightarrow> bool" where
  "valid_content s = (as_type s = Some ''content'' \<and> str_truthy (as_videoPath s))"

definition is_content :: "assembly_segment \<Rightarrow> bool" where
  "is_content s = (as_type s = Some ''content'')"

text \<open>
  The invariant of the loop of \<open>deduplicateSegments\<close>: every segment in \<open>seen\<close>
  is a content segment of \<open>uniqueSegments\<close>, filed under its own key; every content
  segment of \<open>uniqueSegments\<close> is the one in \<open>seen\<close> under its key; and no two
  content segments of \<open>uniqueSegments\<close> have the same key.
\<close>

definition dedup_inv ::
    "(real \<Rightarrow> string) \<Rightarrow> (string \<rightharpoonup> assembly_segment) \<times> assembly_segment list \<Rightarrow> bool" where
  "dedup_inv fmt st =
     (case st of
        (seen, uniqueSegments) \<Rightarrow>
          (\<forall>k s. seen k = Some s \<longrightarrow>
                 s \<in> set uniqueSegments \<and> valid_content s \<and> getSegmentKey fmt s = k)
          \<and> (\<forall>u \<in> set uniqueSegments. is_content u \<longrightarrow> seen (getSegmentKey fmt u) = Some u)
          \<and> (\<forall>i j. i < length uniqueSegments \<and> j < length uniqueSegments \<and> i \<noteq> j
                  \<and> is_content (uniqueSegments ! i) \<and> is_content (uniqueSegments ! j)
                  \<longrightarrow> getSegmentKey fmt (uniqueSegments ! i) \<noteq> getSegmentKey fmt (uniqueSegments ! j)))"

text \<open>
  The segment kept under a key is at least as good as every segment of that key among
  the elements \<open>P\<close> read so far, and \<open>uniqueSegments\<close> holds only elements read
  so far.
\<close>

definition dedup_best ::
    "(real \<Rightarrow> string) \<Rightarrow> assembly_segment option set
       \<Rightarrow> (string \<rightharpoonup> assembly_segment) \<times> assembly_segment list \<Rightarrow> bool" where
  "dedup_best fmt P st =
     ((\<forall>y. Some y \<in> P \<and> valid_content y \<longrightarrow>
            (\<exists>x. fst st (getSegmentKey fmt y) = Some x \<and> \<not> isBetterSegment y x))
      \<and> (\<forall>x \<in> set (snd st). Some x \<in> P))"

subsection \<open>Assembly of the final video\<close>

text \<open>
  What \<open>generateVideo\<close> asks of its platform (ffmpeg, the file system, \<open>path.join\<close>
  and \<open>uuidv4\<close>) is a parameter of the model. An operation that can throw or reject
  returns \<open>None\<close> or \<open>False\<close> when it does; every operation answers the same
  arguments in the same way during one call of \<open>generateVideo\<close>.
  \<open>lavfiTransition p\<close> tells whether the transition file \<open>p\<close> is there or can be made,
  \<open>concatenate copy parts out\<close> whether ffmpeg joins the files \<open>parts\<close> into
  \<open>out\<close> (with stream copy, or after bringing every part to one format).
\<close>

record studio =
  videosDirectory :: string
  outputDirectory :: string
  lavfiSupported :: bool
  uuidv4 :: string
  path_join :: "string \<Rightarrow> string \<Rightarrow> string"
  mkdir :: "string \<Rightarrow> bool"
  lavfiTransition :: "string \<Rightarrow> bool"
  createLavfiTitleCard :: "string option \<Rightarrow> jsnum \<Rightarrow> string option"
  getVideoDurationSec :: "string \<Rightarrow> jsnum"
  extractVideoSegment :: "string \<Rightarrow> jsnum \<Rightarrow> jsnum \<Rightarrow> string option"
  addCaptions :: "string \<Rightarrow> string \<Rightarrow> string \<Rightarrow> bool"
  copyFile :: "string \<Rightarrow> string \<Rightarrow> bool"
  concatenate :: "bool \<Rightarrow> string list \<Rightarrow> string \<Rightarrow> bool"

datatype assembly_error = NoSegmentsProvided | TypeError | PlatformError

text \<open>An element of \<open>processedSegments\<close>; a field that is not set is \<open>None\<close>.\<close>

record processed =
  p_path :: string
  p_type :: string
  p_text :: "string option"
  p_stepNumber :: "jsnum option"
  p_duration :: jsnum
  p_importance :: "jsnum option"

text \<open>The result: the path of the final video and the files it is joined from, in order.\<close>

record assembled =
  finalOutput :: string
  allParts :: "string list"

definition Math_ceil :: "jsnum \<Rightarrow> jsnum" where
  "Math_ceil a = (case a of Num x \<Rightarrow> Num (of_int \<lceil>x\<rceil>) | _ \<Rightarrow> a)"

text \<open>\<open>createTransition(1)\<close>.\<close>

definition createTransition :: "studio \<Rightarrow> assembly_error + string option" where
  "createTransition st =
     (if \<not> lavfiSupported st then Inr None
      else
        (let transitionPath = path_join st (outputDirectory st) ''transition-1s.mp4'' in
           if lavfiTransition st transitionPath then Inr (Some transitionPath)
           else Inl PlatformError))"

text \<open>
  \<open>createTitleCard\<close>, as its caller sees it: the path of the card, or \<open>None\<close> when
  the call throws or returns \<open>null\<close>; the caller pushes nothing in both cases. Without
  lavfi the fallback returns \<open>createTransition(duration)\<close>, which is \<open>null\<close> then.
\<close>

definition createTitleCard :: "studio \<Rightarrow> string option \<Rightarrow> jsnum \<Rightarrow> string option" where
  "createTitleCard st title' duration =
     (if lavfiSupported st then createLavfiTitleCard st title' duration else None)"

text \<open>The start and end of the extraction, from the length of the text and the probed duration.\<close>

definition extraction_window :: "assembly_segment \<Rightarrow> nat \<Rightarrow> jsnum \<Rightarrow> jsnum \<times> jsnum" where
  "extraction_window segment n durSec =
     (let textLength = Num (real n);
          minDuration = Num 15;
          maxDuration = Num 45;
          wordsPerSecond = Num 2;
          baseEstimatedDuration = Math_ceil (js_div textLength (js_mul wordsPerSecond (Num 5)));
          importanceMultiplier = (if as_type segment = Some ''content'' then Num (12 / 10) else Num 1);
          estimatedDuration = Math_ceil (js_mul baseEstimatedDuration importanceMultiplier);
          complexityBuffer = (if js_gt textLength (Num 200) then Num 5 else Num 0);
          optimalDuration =
            Math_min maxDuration (Math_max minDuration (js_add estimatedDuration complexityBuffer));
          leadIn = Num 3;
          leadOut = Num 3;
          totalDuration = js_add (js_add optimalDuration leadIn) leadOut;
          centerTimestamp = as_startTime segment;
          contextWindow = Num 5;
          start = Math_max (Num 0)
                    (js_sub (js_sub centerTimestamp (js_div totalDuration (Num 2))) contextWindow);
          end' = Math_min durSec
                   (js_add (js_add start totalDuration) (js_mul contextWindow (Num 2)))
      in (start, end'))"

text \<open>The caption: the section title and the step number go before the text.\<close>

definition captionText :: "(real \<Rightarrow> string) \<Rightarrow> assembly_segment \<Rightarrow> string \<Rightarrow> string" where
  "captionText fmt segment text =
     (case as_sectionTitle segment of
        None \<Rightarrow> text
      | Some sectionTitle \<Rightarrow>
          if sectionTitle = [] then text
          else sectionTitle @ [CHR 0x0A]
               @ (case as_stepNumber segment of
                    None \<Rightarrow> []
                  | Some stepNumber \<Rightarrow>
                      if num_truthy stepNumber then ''Step '' @ num_string fmt stepNumber @ '': ''
                      else [])
               @ text)"

text \<open>
  One turn of the first loop of \<open>generateVideo\<close>, for the element \<open>i\<close> of
  \<open>segments\<close>: the element pushed onto \<open>processedSegments\<close>, if any, or the exception
  that leaves the loop. Reading \<open>segment.type\<close> of \<open>null\<close> and \<open>segment.text.length\<close>
  of a text that is not set throw a \<open>TypeError\<close>.
\<close>

definition process_segment ::
    "studio \<Rightarrow> (real \<Rightarrow> string) \<Rightarrow> string \<Rightarrow> string \<Rightarrow> string option \<Rightarrow> nat
       \<Rightarrow> assembly_segment option \<Rightarrow> assembly_error + processed option" where
  "process_segment st fmt tempDir outputId transitionPath i seg =
     (case seg of
        None \<Rightarrow> Inl TypeError
      | Some segment \<Rightarrow>
          if as_type segment = Some ''title'' \<or> as_type segment = Some ''section_title''
             \<or> as_type segment = Some ''conclusion''
          then
            (let duration =
                   (if as_type segment = Some ''title'' then Num 8
                    else if as_type segment = Some ''section_title'' then Num 5
                    else opt_jsnum_or (as_duration segment) (Num 6))
             in case createTitleCard st (as_title segment) duration of
                  None \<Rightarrow> Inr None
                | Some titlePath \<Rightarrow>
                    if titlePath = [] then Inr None
                    else Inr (Some \<lparr>p_path = titlePath,
                                     p_type = (case as_type segment of None \<Rightarrow> [] | Some t \<Rightarrow> t),
                                     p_text = as_text segment, p_stepNumber = None,
                                     p_duration = duration, p_importance = None\<rparr>))
          else if as_type segment = Some ''transition'' then
            (case transitionPath of
               None \<Rightarrow> Inr None
             | Some tp \<Rightarrow>
                 if tp = [] then Inr None
                 else Inr (Some \<lparr>p_path = tp, p_type = ''transition'', p_text = None,
                                  p_stepNumber = None,
                                  p_duration = opt_jsnum_or (as_duration segment) (Num (3 / 2)),
                                  p_importance = None\<rparr>))
          else
            (case as_videoPath segment of
               None \<Rightarrow> Inr None
             | Some vp \<Rightarrow>
                 if vp = [] then Inr None
                 else
                   (let rel = (if startsWith vp ''/videos/'' then drop 8 vp
                               else if startsWith vp ''videos/'' then drop 7 vp else vp);
                        videoPath = path_join st (videosDirectory st) rel;
                        durSec = getVideoDurationSec st videoPath
                    in case as_text segment of
                         None \<Rightarrow> Inl TypeError
                       | Some text \<Rightarrow>
                           (case extraction_window segment (length text) durSec of
                              (start, end') \<Rightarrow>
                                (case extractVideoSegment st videoPath start end' of
                                   None \<Rightarrow> Inl PlatformError
                                 | Some segmentPath \<Rightarrow>
                                     (let captionedPath =
                                            path_join st tempDir
                                              (''captioned-'' @ outputId @ ''-'' @ fmt (real i)
                                               @ ''.mp4'')
                                      in if addCaptions st segmentPath captionedPath
                                              (captionText fmt segment text)
                                            \<or> copyFile st segmentPath captionedPath
                                         then
                                           Inr (Some
                                             \<lparr>p_path = captionedPath, p_type = ''content'',
                                              p_text = Some text,
                                              p_stepNumber = as_stepNumber segment,
                                              p_duration = js_sub end' start,
                                              p_importance =
                                                Some (if as_type segment = Some ''content''
                                                      then Num (12 / 10) else Num 1)\<rparr>)
                                         else Inl PlatformError))))))"

text \<open>The first loop, from the index \<open>i\<close> on.\<close>

fun process_segments ::
    "studio \<Rightarrow> (real \<Rightarrow> string) \<Rightarrow> string \<Rightarrow> string \<Rightarrow> string option \<Rightarrow> nat
       \<Rightarrow> assembly_segment option list \<Rightarrow> processed list \<Rightarrow> assembly_error + processed list" where
  "process_segments st fmt tempDir outputId transitionPath i [] processedSegments =
     Inr processedSegments"
| "process_segments st fmt tempDir outputId transitionPath i (seg # segments) processedSegments =
     (case process_segment st fmt tempDir outputId transitionPath i seg of
        Inl err \<Rightarrow> Inl err
      | Inr None \<Rightarrow>
          process_segments st fmt tempDir outputId transitionPath (Suc i) segments processedSegments
      | Inr (Some p) \<Rightarrow>
          process_segments st fmt tempDir outputId transitionPath (Suc i) segments
            (processedSegments @ [p]))"

text \<open>
  \<open>a !== b\<close> on two values that are numbers or \<open>undefined\<close>, and \<open>a > b\<close>, which is
  false when a side is \<open>undefined\<close>.
\<close>

definition strict_differs :: "jsnum option \<Rightarrow> jsnum option \<Rightarrow> bool" where
  "strict_differs a b = (a \<noteq> b \<or> a = Some NaN)"

definition opt_gt :: "jsnum option \<Rightarrow> jsnum option \<Rightarrow> bool" where
  "opt_gt a b = (case (a, b) of (Some x, Some y) \<Rightarrow> js_gt x y | _ \<Rightarrow> False)"

definition needsTransition :: "processed \<Rightarrow> processed \<Rightarrow> bool" where
  "needsTransition prev current =
     (p_type prev \<noteq> p_type current
      \<or> (p_type current = ''content'' \<and> p_type prev = ''content''
          \<and> (strict_differs (p_stepNumber current) (p_stepNumber prev)
               \<or> opt_gt (p_importance current) (p_importance prev))))"

text \<open>
  The second loop: the files to join. \<open>prev\<close> is the element before the current one
  (\<open>None\<close> at the first element).
\<close>

fun collect_parts :: "string option \<Rightarrow> processed option \<Rightarrow> processed list \<Rightarrow> string list" where
  "collect_parts transitionPath prev [] = []"
| "collect_parts transitionPath prev (current # rest) =
     (case (prev, transitionPath) of
        (Some pr, Some tp) \<Rightarrow>
          if tp \<noteq> [] \<and> needsTransition pr current then [tp] else []
      | _ \<Rightarrow> [])
     @ [p_path current] @ collect_parts transitionPath (Some current) rest"

text \<open>
  \<open>generateVideo\<close> on an array of segments (an element that is \<open>null\<close> is
  \<open>None\<close>). \<open>uniqueSegments\<close> is computed and its length is logged; the loop runs
  over \<open>segments\<close>. The test for the simple concatenation compares each path in
  \<open>allParts\<close> with the element of \<open>processedSegments\<close> at the same index, a string
  with an object, so it holds only when both arrays are empty. An exception inside the
  \<open>try\<close> block is thrown again after the cleanup.
\<close>

definition generateVideo ::
    "studio \<Rightarrow> (real \<Rightarrow> string) \<Rightarrow> assembly_segment option list \<Rightarrow> assembly_error + assembled" where
  "generateVideo st fmt segments =
     (if length segments = 0 then Inl NoSegmentsProvided
      else
        (let uniqueSegments = deduplicateSegments fmt segments;
             outputId = uuidv4 st;
             finalOutput' = path_join st (outputDirectory st) (''final-'' @ outputId @ ''.mp4'');
             tempDir = path_join st (outputDirectory st) ''temp''
         in if \<not> mkdir st tempDir then Inl PlatformError
            else
              (case (if lavfiSupported st then createTransition st else Inr None) of
                 Inl err \<Rightarrow> Inl err
               | Inr transitionPath \<Rightarrow>
                   (case process_segments st fmt tempDir outputId transitionPath 0 segments [] of
                      Inl err \<Rightarrow> Inl err
                    | Inr processedSegments \<Rightarrow>
                        (let parts = collect_parts transitionPath None processedSegments in
                           if concatenate st (processedSegments = []) parts finalOutput'
                           then Inr \<lparr>finalOutput = finalOutput', allParts = parts\<rparr>
                           else Inl PlatformError)))))"

section \<open>Sample inputs\<close>

text \<open>A window from 20 s to 30 s and a judgment that asks to trim 8 s on both sides.\<close>

definition sample_window :: segment where
  "sample_window =
     \<lparr>seg_timestamps = [], seg_similarity = Num (5 / 10), seg_text = ''open the valve slowly'',
      seg_startTime = Num 20, seg_endTime = Num 30\<rparr>"

definition sample_judgment :: analysis where
  "sample_judgment =
     \<lparr>relevance_score = Some (8 / 10), quality_score = Some (7 / 10),
      llm_title = Some ''Opening the valve'', llm_description = None,
      key_topics = None,
      optimal_start_offset = Some 8, optimal_end_offset = Some 8,
      include_clip = True, llm_reasoning = None\<rparr>"

text \<open>
  A request environment whose videos directory holds one video file and one other file,
  and whose collaborators all fail.
\<close>

definition sample_env :: collaborators where
  "sample_env =
     \<lparr>hasClient = True, JSON_parse = (\<lambda>s. None), number_format = (\<lambda>x. []),
      readdir = Some [''notes.txt'', ''Lesson-1.MP4''],
      getAWSEmbedding = (\<lambda>s. None), judge = (\<lambda>s q r. ApiError), rank = (\<lambda>c q r. ApiError)\<rparr>"

text \<open>
  A stand-in for \<open>JSON.parse\<close> that knows one document: it returns \<open>v\<close> for the
  text \<open>doc\<close> and throws for every other text.
\<close>

definition parses_to :: "string \<Rightarrow> json \<Rightarrow> string \<Rightarrow> json option" where
  "parses_to doc v s = (if s = doc then Some v else None)"

text \<open>
  A transcript line whose end lies before its start, as JSON and as a fragment that is no
  JSON; and a line whose start is the number 0.
\<close>

definition inverted_line :: string where
  \<open>inverted_line = ''{"text":"a","start":"5","end":"3"}''\<close>

definition inverted_object :: json where
  "inverted_object = JObj [(''text'', JStr ''a''), (''start'', JStr ''5''), (''end'', JStr ''3'')]"

definition inverted_fragment :: string where
  \<open>inverted_fragment = ''"text": "a", "start": "5", "end": "3"''\<close>

definition zero_start_line :: string where
  \<open>zero_start_line = ''{"text":"hello","start":0,"end":5}''\<close>

definition zero_start_fields :: "(string \<times> json) list" where
  "zero_start_fields = [(''text'', JStr ''hello''), (''start'', JNum 0), (''end'', JNum 5)]"

text \<open>
  Two lines whose start is not the number 0 but is read as 0 seconds: the string
  \<open>"0"\<close> and the number \<open>-5\<close>.
\<close>

definition string_zero_line :: string where
  \<open>string_zero_line = ''{"text":"hello","start":"0","end":5}''\<close>

definition string_zero_fields :: "(string \<times> json) list" where
  "string_zero_fields = [(''text'', JStr ''hello''), (''start'', JStr ''0''), (''end'', JNum 5)]"

definition negative_start_line :: string where
  \<open>negative_start_line = ''{"text":"hello","start":-5,"end":5}''\<close>

definition negative_start_fields :: "(string \<times> json) list" where
  "negative_start_fields = [(''text'', JStr ''hello''), (''start'', JNum (- 5)), (''end'', JNum 5)]"

text \<open>
  A stand-in for the platform's number formatting that is right for whole numbers.
\<close>

fun digits_of :: "nat \<Rightarrow> string" where
  "digits_of n =
     (if n < 10 then [char_of (48 + n)] else digits_of (n div 10) @ [char_of (48 + n mod 10)])"

definition whole_number_format :: "real \<Rightarrow> string" where
  "whole_number_format x =
     (if x < 0 then ''-'' @ digits_of (nat \<lfloor>- x\<rfloor>) else digits_of (nat \<lfloor>x\<rfloor>))"

text \<open>
  Two content segments of the same video with the same text, whose starts 20 and 20.4
  round to the same second, so that their keys are equal; the second one has the lower
  relevance score and no title. And a platform without lavfi on which every other
  operation succeeds: each video lasts 120 s.
\<close>

definition valve_segment :: assembly_segment where
  "valve_segment =
     \<lparr>as_type = Some ''content'', as_videoPath = Some ''/videos/lesson.mp4'',
      as_text = Some ''open the valve'', as_startTime = Num 20, as_endTime = Num 50,
      as_relevanceScore = Some (Num (9 / 10)), as_qualityScore = Some (Num (8 / 10)),
      as_title = Some ''Valve'', as_description = None, as_keyTopics = None,
      as_duration = None, as_sectionTitle = None, as_stepNumber = None\<rparr>"

definition valve_segment_again :: assembly_segment where
  "valve_segment_again =
     \<lparr>as_type = Some ''content'', as_videoPath = Some ''/videos/lesson.mp4'',
      as_text = Some ''open the valve'', as_startTime = Num (204 / 10), as_endTime = Num 50,
      as_relevanceScore = Some (Num (5 / 10)), as_qualityScore = Some (Num (8 / 10)),
      as_title = None, as_description = None, as_keyTopics = None,
      as_duration = None, as_sectionTitle = None, as_stepNumber = None\<rparr>"

definition sample_studio :: studio where
  "sample_studio =
     \<lparr>videosDirectory = ''videos'', outputDirectory = ''out'', lavfiSupported = False,
      uuidv4 = ''id'', path_join = (\<lambda>a b. a @ ''/'' @ b), mkdir = (\<lambda>d. True),
      lavfiTransition = (\<lambda>p. False), createLavfiTitleCard = (\<lambda>t d. None),
      getVideoDurationSec = (\<lambda>p. Num 120),
      extractVideoSegment = (\<lambda>p s e. Some ''out/segment-lesson.mp4''),
      addCaptions = (\<lambda>i out t. True), copyFile = (\<lambda>a b. True),
      concatenate = (\<lambda>c parts out. True)\<rparr>"

section \<open>Verified properties\<close>

subsection \<open>Arithmetic on finite numbers\<close>

lemma js_sub_Num_cases:
  "js_sub e s = Num d \<Longrightarrow> \<exists>a b. s = Num a \<and> e = Num b \<and> d = b - a"
  by (cases e; cases s) (auto simp: js_sub_def)

subsection \<open>Curator: offsets that would invert the clip\<close>

text \<open>
  Claim C3. For every window of duration 10 seconds (that starts at a non-negative time,
  as every window built from parsed entries does) and every judgment of the model with
  \<open>include_clip\<close>, a relevance score at or above the threshold and both trim offsets
  equal to 8, \<open>enhanceClipWithLLM\<close> returns a clip whose duration is at least 5 seconds
  and whose end is not at or before its start. The offsets are clamped to 5, the
  optimized end meets the optimized start, and the clip is rebuilt from the original
  window bounds with the context buffer. Without a Bedrock client the basic clip of the
  window is returned, which is longer still.
\<close>

theorem curator_offsets_8_8_keep_five_seconds:
  assumes dur: "js_sub (seg_endTime seg) (seg_startTime seg) = Num 10"
      and nonneg: "js_ge (seg_startTime seg) (Num 0)"
      and reply: "llm seg q resp = Parsed a"
      and incl: "include_clip a"
      and score: "relevance_score a = Some r" "MIN_LLM_SCORE \<le> r"
      and offs: "optimal_start_offset a = Some 8" "optimal_end_offset a = Some 8"
  shows "\<exists>c. enhanceClipWithLLM client llm seg videoFile q resp = Some c
           \<and> js_ge (js_sub (endTime c) (startTime c)) (Num 5)
           \<and> \<not> js_le (endTime c) (startTime c)"
proof -
  from js_sub_Num_cases [OF dur] obtain s e where
    se: "seg_startTime seg = Num s" "seg_endTime seg = Num e" "10 = e - s" by blast
  from nonneg se have s0: "0 \<le> s" by (simp add: js_ge_def)
  show ?thesis
  proof (cases client)
    case False
    with se s0 show ?thesis
      by (simp add: enhanceClipWithLLM_def createBasicClip_def js_sub_def Math_max_def js_ge_def)
  next
    case True
    with se s0 reply incl score offs show ?thesis
      by (simp add: enhanceClipWithLLM_def createValidClip_def callClaudeViaAWS_def js_sub_def
            Math_max_def Math_min_def js_ge_def opt_num_or_def num_or_def num_truthy_def
            CONTEXT_BUFFER_def Let_def)
  qed
qed

theorem curator_offsets_8_8_witness:
  "js_sub (seg_endTime sample_window) (seg_startTime sample_window) = Num 10
   \<and> js_ge (seg_startTime sample_window) (Num 0)
   \<and> include_clip sample_judgment
   \<and> relevance_score sample_judgment = Some (8 / 10) \<and> MIN_LLM_SCORE \<le> 8 / 10
   \<and> optimal_start_offset sample_judgment = Some 8
   \<and> optimal_end_offset sample_judgment = Some 8
   \<and> (\<exists>c. enhanceClipWithLLM True (\<lambda>s q r. Parsed sample_judgment) sample_window
              ''lesson.mp4'' ''valve'' ''answer'' = Some c
            \<and> js_ge (js_sub (endTime c) (startTime c)) (Num 5)
            \<and> \<not> js_le (endTime c) (startTime c))"
  using curator_offsets_8_8_keep_five_seconds
          [where seg = sample_window and llm = "\<lambda>s q r. Parsed sample_judgment"
             and a = sample_judgment and r = "8 / 10" and client = True
             and videoFile = "''lesson.mp4''" and q = "''valve''" and resp = "''answer''"]
  by (simp add: sample_window_def sample_judgment_def MIN_LLM_SCORE_def js_sub_def js_ge_def)

subsection \<open>Segmenter: cosine similarity\<close>

lemma cosine_sums_swap_aux:
  fixes a b :: "real list"
  shows "foldl (\<lambda>(d, na, nb) i. (d + a ! i * b ! i, na + b ! i * b ! i, nb + a ! i * a ! i))
           (d0, nb0, na0) is
         = (case foldl (\<lambda>(d, na, nb) i. (d + a ! i * b ! i, na + a ! i * a ! i, nb + b ! i * b ! i))
                  (d0, na0, nb0) is
            of (d, na, nb) \<Rightarrow> (d, nb, na))"
  by (induction "is" arbitrary: d0 na0 nb0) simp_all

lemma cosine_sums_swap_gen:
  fixes a b :: "real list"
  shows "foldl (\<lambda>(d, na, nb) i. (d + b ! i * a ! i, na + b ! i * b ! i, nb + a ! i * a ! i))
           (d0, nb0, na0) is
         = (case foldl (\<lambda>(d, na, nb) i. (d + a ! i * b ! i, na + a ! i * a ! i, nb + b ! i * b ! i))
                  (d0, na0, nb0) is
            of (d, na, nb) \<Rightarrow> (d, nb, na))"
proof -
  have "(\<lambda>(d, na, nb) i. (d + b ! i * a ! i, na + b ! i * b ! i, nb + a ! i * a ! i))
      = (\<lambda>(d :: real, na :: real, nb :: real) i.
           (d + a ! i * b ! i, na + b ! i * b ! i, nb + a ! i * a ! i))"
    by (auto simp: fun_eq_iff mult.commute)
  then show ?thesis using cosine_sums_swap_aux [of a b d0 nb0 na0 "is"] by simp
qed

lemma cosine_sums_swap:
  "cosine_sums a b = (d, na, nb) \<Longrightarrow> length a = length b \<Longrightarrow> cosine_sums b a = (d, nb, na)"
  unfolding cosine_sums_def using cosine_sums_swap_gen [of b a 0 0 0 "[0 ..< length a]"]
  by simp

lemma cosineSimilarity_sym: "cosineSimilarity a b = cosineSimilarity b a"
proof (cases a)
  case None
  then show ?thesis by (cases b) (simp_all add: cosineSimilarity_def cosine_operands_def)
next
  case (Some xs)
  note a = this
  show ?thesis
  proof (cases b)
    case None
    with a show ?thesis by (simp add: cosineSimilarity_def cosine_operands_def)
  next
    case (Some ys)
    show ?thesis
    proof (cases "length xs = length ys")
      case False
      with a Some show ?thesis by (simp add: cosineSimilarity_def cosine_operands_def)
    next
      case True
      obtain d na nb where s: "cosine_sums xs ys = (d, na, nb)"
        by (cases "cosine_sums xs ys") auto
      from cosine_sums_swap [OF s True] have s': "cosine_sums ys xs = (d, nb, na)" .
      from a Some True s s' show ?thesis
        by (simp add: cosineSimilarity_def cosine_operands_def mult.commute)
    qed
  qed
qed

text \<open>
  Claim C4, as stated, fails for a pair of empty vectors: an empty array is truthy and
  the lengths are equal, so the guard does not return; the loop does not run and the
  function divides 0 by 0. The result is \<open>NaN\<close>, not 0.
\<close>

theorem cosineSimilarity_empty_pair_counterexample:
  "cosineSimilarity (Some []) (Some []) \<noteq> Num 0
   \<and> cosine_operands (Some []) (Some []) = Some (Num 0, Num 0)"
  by (simp add: cosineSimilarity_def cosine_operands_def cosine_sums_def)

text \<open>
  Claim C4, amended. For every pair of vectors \<open>cosineSimilarity(a, b)\<close> equals
  \<open>cosineSimilarity(b, a)\<close>. For every pair whose lengths differ (in particular when
  exactly one vector is empty), and whenever a vector is \<open>null\<close>, it returns exactly 0
  before any division. For a pair of empty vectors it divides 0 by 0 and returns
  \<open>NaN\<close>.
\<close>

theorem cosineSimilarity_symmetric_and_guarded:
  "cosineSimilarity a b = cosineSimilarity b a
   \<and> (length xs \<noteq> length ys \<longrightarrow>
        cosineSimilarity (Some xs) (Some ys) = Num 0 \<and> cosine_operands (Some xs) (Some ys) = None)
   \<and> cosineSimilarity None b = Num 0 \<and> cosine_operands None b = None
   \<and> cosineSimilarity a None = Num 0 \<and> cosine_operands a None = None
   \<and> cosineSimilarity (Some []) (Some []) = NaN"
proof -
  have "cosineSimilarity a None = Num 0 \<and> cosine_operands a None = None"
    by (cases a) (simp_all add: cosineSimilarity_def cosine_operands_def)
  moreover have "cosineSimilarity (Some []) (Some []) = NaN"
    by (simp add: cosineSimilarity_def cosine_operands_def cosine_sums_def)
  ultimately show ?thesis
    using cosineSimilarity_sym [of a b]
    by (simp add: cosineSimilarity_def cosine_operands_def)
qed

theorem cosineSimilarity_guard_witness:
  "length [3, 4 :: real] \<noteq> length ([] :: real list)
   \<and> cosineSimilarity (Some [3, 4]) (Some []) = Num 0
   \<and> cosine_operands (Some [3, 4]) (Some []) = None
   \<and> cosineSimilarity (Some [3, 4]) (Some [4, 3]) = cosineSimilarity (Some [4, 3]) (Some [3, 4])"
  using cosineSimilarity_symmetric_and_guarded [of "Some [3, 4]" "Some [4, 3]" "[3, 4]" "[]"]
  by simp

subsection \<open>Curation without references\<close>

lemma createIntelligentFallbacks_all_fallback:
  "\<forall>c \<in> set (createIntelligentFallbacks rd q resp). isFallback c"
  by (simp add: createIntelligentFallbacks_def fallback_clip_def Let_def)

lemma createIntelligentFallbacks_length:
  "length (createIntelligentFallbacks rd q resp) = min (length (findAllVideoFiles rd)) 2"
  by (simp add: createIntelligentFallbacks_def Let_def)

text \<open>
  Claim C1. For every call of \<open>extractRelevantClips\<close> with zero retrieved references
  (no trace, or a trace whose events hold no reference) and at least one video file in
  the videos directory (a listed name that ends, case-insensitively, in one of the video
  extensions), the returned clip sequence is not empty and every clip of it has
  \<open>isFallback = true\<close>. It has at most two clips.
\<close>

theorem curateClips_zero_references_fallback:
  assumes refs: "case agentTrace of None \<Rightarrow> True
                 | Some trace \<Rightarrow> extractStructuredReferences trace = []"
      and dir: "readdir env = Some files"
      and video: "\<exists>f \<in> set files. \<exists>ext \<in> set videoExtensions. endsWith (toLowerCase f) ext"
  shows "extractRelevantClips env agentTrace agentResponse userQuery \<noteq> []
         \<and> (\<forall>c \<in> set (extractRelevantClips env agentTrace agentResponse userQuery). isFallback c)
         \<and> length (extractRelevantClips env agentTrace agentResponse userQuery) \<le> 2"
proof -
  have sem: "(case agentTrace of None \<Rightarrow> []
              | Some trace \<Rightarrow>
                  createSemanticClips env (extractStructuredReferences trace) userQuery agentResponse)
             = []"
    using refs by (cases agentTrace) (simp_all add: createSemanticClips_def)
  have eq: "extractRelevantClips env agentTrace agentResponse userQuery
            = createIntelligentFallbacks (readdir env) userQuery agentResponse"
    unfolding extractRelevantClips_def sem by (simp add: Let_def)
  from dir video have "findAllVideoFiles (readdir env) \<noteq> []"
    by (auto simp: findAllVideoFiles_def filter_empty_conv)
  then have "createIntelligentFallbacks (readdir env) userQuery agentResponse \<noteq> []"
    using createIntelligentFallbacks_length [of "readdir env" userQuery agentResponse]
    by (cases "findAllVideoFiles (readdir env)") auto
  then show ?thesis
    using eq createIntelligentFallbacks_all_fallback [of "readdir env" userQuery agentResponse]
      createIntelligentFallbacks_length [of "readdir env" userQuery agentResponse]
    by simp
qed

lemma sample_file_is_video: "endsWith (toLowerCase ''Lesson-1.MP4'') ''.mp4''"
  by code_simp

theorem curateClips_zero_references_witness:
  "extractStructuredReferences [None, Some []] = []
   \<and> readdir sample_env = Some [''notes.txt'', ''Lesson-1.MP4'']
   \<and> endsWith (toLowerCase ''Lesson-1.MP4'') ''.mp4''
   \<and> extractRelevantClips sample_env (Some [None, Some []]) ''answer'' ''valve'' \<noteq> []
   \<and> list_all isFallback (extractRelevantClips sample_env (Some [None, Some []]) ''answer'' ''valve'')"
  using curateClips_zero_references_fallback
          [where agentTrace = "Some [None, Some []]" and env = sample_env
             and files = "[''notes.txt'', ''Lesson-1.MP4'']"
             and agentResponse = "''answer''" and userQuery = "''valve''"]
    sample_file_is_video
  by (simp add: sample_env_def extractStructuredReferences_def videoExtensions_def list_all_iff)

subsection \<open>Frame extractor: timestamps at or behind the end\<close>

lemma run_strategies_seeks:
  "set (fst (run_strategies transcode sts)) \<subseteq> seek_of ` set sts"
  by (induction sts) (auto split: prod.splits)

lemma strategies_in_range:
  assumes "1 < duration" "duration \<le> timestamp"
  shows "\<forall>st \<in> set (extractionStrategies timestamp duration).
           \<exists>t. seek_of st = Some t \<and> 0 < t \<and> t < duration \<and> t \<noteq> timestamp"
  using assms
  by (auto simp: extractionStrategies_def adjustedTimestamp_def seek_of_def Let_def max_def min_def)

lemma extractFrame_seeks:
  "set (fst (extractFrame transcode ex (Some duration) timestamp n))
     \<subseteq> seek_of ` set (extractionStrategies timestamp duration)"
proof (induction "3 - n" arbitrary: n rule: less_induct)
  case less
  obtain seeks ok where
    r: "run_strategies transcode (extractionStrategies timestamp duration) = (seeks, ok)"
    by (cases "run_strategies transcode (extractionStrategies timestamp duration)") auto
  with run_strategies_seeks [of transcode "extractionStrategies timestamp duration"]
  have sub: "set seeks \<subseteq> seek_of ` set (extractionStrategies timestamp duration)" by simp
  show ?case
  proof (cases "ex \<and> 0 < duration \<and> \<not> ok \<and> n < 3")
    case True
    then have "3 - (n + 1) < 3 - n" by arith
    from less [OF this]
    have ih: "set (fst (extractFrame transcode ex (Some duration) timestamp (n + 1)))
                \<subseteq> seek_of ` set (extractionStrategies timestamp duration)" .
    from True r have "fst (extractFrame transcode ex (Some duration) timestamp n)
          = seeks @ fst (extractFrame transcode ex (Some duration) timestamp (n + 1))"
      by (subst extractFrame.simps) (simp split: prod.splits)
    with sub ih show ?thesis by simp
  next
    case False
    with r have "fst (extractFrame transcode ex (Some duration) timestamp n) = []
                 \<or> fst (extractFrame transcode ex (Some duration) timestamp n) = seeks"
      by (subst (1 2) extractFrame.simps) (auto split: prod.splits)
    with sub show ?thesis by auto
  qed
qed

text \<open>
  For a video longer than one second the property of claim C9 holds: every seek position
  handed to the transcoder, by any strategy and in any retry, lies strictly between 0 and
  the probed duration and differs from the requested timestamp.
\<close>

lemma extractFrame_long_video_in_range:
  assumes "1 < duration" "duration \<le> timestamp"
      and "s \<in> set (fst (extractFrame transcode ex (Some duration) timestamp n))"
  shows "\<exists>t. s = Some t \<and> 0 < t \<and> t < duration \<and> t \<noteq> timestamp"
  using extractFrame_seeks [of transcode ex duration timestamp n]
    strategies_in_range [OF assms(1,2)] assms(3)
  by blast

text \<open>
  Claim C9 fails on the code for a video of at most one second. The timestamp is pulled
  back to \<open>max(0, duration - 5)\<close> and then raised to 1 (\<open>Never extract at 0s\<close>); the
  primary strategy hands this value to the transcoder unfiltered, whereas the two later
  strategies filter their timestamps to the open interval from 0 to the duration. With a
  probed duration of 0.5 s and a requested timestamp of 10 s the first seek position is
  1 s, which is not below the duration. With a probed duration of 1 s and a requested
  timestamp of 1 s the first seek position is the requested timestamp itself.
\<close>

theorem extractFrame_short_video_seeks_past_end:
  "(\<exists>rest ok. extractFrame transcode True (Some (1 / 2)) 10 0 = (Some 1 # rest, ok))
   \<and> \<not> (1 :: real) < 1 / 2
   \<and> (\<exists>rest ok. extractFrame transcode True (Some 1) 1 0 = (Some 1 # rest, ok))"
proof -
  have "\<exists>rest ok. extractFrame transcode True (Some (1 / 2)) 10 0 = (Some 1 # rest, ok)"
    by (subst extractFrame.simps)
      (auto simp: extractionStrategies_def adjustedTimestamp_def seek_of_def Let_def
            split: prod.splits option.splits)
  moreover have "\<exists>rest ok. extractFrame transcode True (Some 1) 1 0 = (Some 1 # rest, ok)"
    by (subst extractFrame.simps)
      (auto simp: extractionStrategies_def adjustedTimestamp_def seek_of_def Let_def
            split: prod.splits option.splits)
  ultimately show ?thesis by simp
qed

subsection \<open>Time parsing\<close>

lemma is_digit_not_special:
  assumes "is_digit c"
  shows "c \<noteq> CHR '':''" "c \<noteq> CHR ''.''" "c \<noteq> CHR ''-''" "c \<noteq> CHR ''+''" "\<not> js_ws c"
    "c \<noteq> CHR ''I''" "c \<noteq> CHR ''x''" "c \<noteq> CHR ''X''" "c \<noteq> CHR ''e''" "c \<noteq> CHR ''E''"
    "toLowerChar c = c"
  using assms by (auto simp: is_digit_def js_ws_def toLowerChar_def Let_def)

lemma all_digits_takeWhile: "list_all is_digit ds \<Longrightarrow> takeWhile is_digit (ds @ r) = ds @ takeWhile is_digit r"
  by (induction ds) auto
lemma all_digits_dropWhile: "list_all is_digit ds \<Longrightarrow> dropWhile is_digit (ds @ r) = dropWhile is_digit r"
  by (induction ds) auto

lemma trim_no_ws:
  assumes "s \<noteq> []" "\<not> js_ws (hd s)" "\<not> js_ws (last s)"
  shows "trim s = s"
proof -
  from assms have 1: "dropWhile js_ws s = s" by (cases s) auto
  from assms have "dropWhile js_ws (rev s) = rev s" by (cases "rev s") (auto simp: last_rev hd_rev)
  with 1 show ?thesis by (simp add: trim_def)
qed

lemma split_char_no_sep: "sep \<notin> set s \<Longrightarrow> split_char sep s = [s]"
  by (induction s) auto

lemma split_char_append:
  "sep \<notin> set a \<Longrightarrow> split_char sep (a @ sep # b) = a # split_char sep b"
  by (induction a) auto

lemma takeWhile_all: "list_all P xs \<Longrightarrow> takeWhile P xs = xs"
  by (induction xs) auto

lemma dropWhile_all: "list_all P xs \<Longrightarrow> dropWhile P xs = []"
  by (induction xs) auto

lemma dec_val_Nil [simp]: "dec_val [] = 0"
  by (simp add: dec_val_def)

lemma decimal_prefix_digits:
  assumes "all_digits ds"
  shows "decimal_prefix ds = Some (Num (real (dec_val ds)), [])"
proof -
  from assms obtain c cs where ds: "ds = c # cs" and c: "is_digit c" and all: "list_all is_digit ds"
    by (cases ds) (auto simp: all_digits_def)
  from c have ts: "take_sign ds = (1, ds)" using is_digit_not_special [OF c] by (simp add: ds)
  from c have ni: "\<not> startsWith ds ''Infinity''" using is_digit_not_special [OF c]
    by (auto simp: ds startsWith_def)
  from all have tw: "takeWhile is_digit ds = ds" "dropWhile is_digit ds = []"
    using all_digits_takeWhile [of ds "[]"] all_digits_dropWhile [of ds "[]"] by simp_all
  show ?thesis
    unfolding decimal_prefix_def ts using ni assms
    by (simp add: exponent_part_def Let_def all_digits_def takeWhile_all dropWhile_all)
qed

lemma parseFloat_digits:
  assumes "all_digits ds"
  shows "parseFloat ds = Num (real (dec_val ds))"
proof -
  from assms obtain c cs where ds: "ds = c # cs" and c: "is_digit c"
    by (cases ds) (auto simp: all_digits_def)
  have "trimStart ds = ds" using is_digit_not_special [OF c] by (simp add: trimStart_def ds)
  then show ?thesis using decimal_prefix_digits [OF assms] by (simp add: parseFloat_def)
qed

lemma parseInt_digits:
  assumes "all_digits ds"
  shows "parseInt ds = Num (real (dec_val ds))"
proof -
  from assms obtain c cs where ds: "ds = c # cs" and c: "is_digit c" and all: "list_all is_digit ds"
    by (cases ds) (auto simp: all_digits_def)
  have tr: "trimStart ds = ds" using is_digit_not_special [OF c] by (simp add: trimStart_def ds)
  from c have ts: "take_sign ds = (1, ds)" using is_digit_not_special [OF c] by (simp add: ds)
  have nx: "\<not> startsWith (toLowerCase (take 2 ds)) ''0x''"
  proof (cases cs)
    case Nil
    then show ?thesis by (simp add: ds startsWith_def toLowerCase_def)
  next
    case (Cons d cs')
    with all ds have "is_digit d" by simp
    from is_digit_not_special [OF this] show ?thesis
      by (auto simp: ds Cons startsWith_def toLowerCase_def)
  qed
  from all have tw: "takeWhile is_digit ds = ds"
    using all_digits_takeWhile [of ds "[]"] by simp
  show ?thesis
    unfolding parseInt_def tr ts using nx assms
    by (simp add: Let_def all_digits_def takeWhile_all)
qed


lemma all_digits_no_colon: "list_all is_digit ds \<Longrightarrow> CHR '':'' \<notin> set ds"
  using is_digit_not_special(1) by (auto simp: list_all_iff)

lemma trim_digits_ends:
  assumes "all_digits a" "all_digits b"
  shows "trim (a @ r @ b) = a @ r @ b"
proof -
  from assms obtain c cs where a: "a = c # cs" "is_digit c" by (cases a) (auto simp: all_digits_def)
  from assms have "b \<noteq> []" "is_digit (last b)" by (auto simp: all_digits_def list_all_iff)
  with a show ?thesis using is_digit_not_special(5)
    by (intro trim_no_ws) auto
qed

lemma not_pure_number_colon:
  assumes "all_digits a"
  shows "\<not> pure_number (a @ CHR '':'' # r)"
  using assms
  by (simp add: pure_number_def Let_def all_digits_def all_digits_takeWhile all_digits_dropWhile
        is_digit_def)

lemma Math_max_0_Num: "0 \<le> x \<Longrightarrow> Math_max (Num 0) (Num x) = Num x"
  by (simp add: Math_max_def)

lemma timeToSeconds_MM_SS:
  assumes m: "all_digits m" and s: "all_digits s"
  shows "timeToSeconds fmt (JStr (m @ '':'' @ s)) = Num (real (dec_val m) * 60 + real (dec_val s))"
proof -
  let ?str = "m @ CHR '':'' # s"
  have tr: "trim ?str = ?str" using trim_digits_ends [OF m s, of "'':''"] by simp
  have np: "\<not> pure_number ?str" by (rule not_pure_number_colon [OF m])
  from m s have nc: "CHR '':'' \<notin> set m" "CHR '':'' \<notin> set s"
    by (auto simp: all_digits_def all_digits_no_colon)
  then have parts: "split_char (CHR '':'') ?str = [m, s]"
    by (simp add: split_char_append split_char_no_sep)
  from m s have ne: "m \<noteq> []" "s \<noteq> []" by (auto simp: all_digits_def)
  show ?thesis
    using tr np parts ne parseInt_digits [OF m] parseFloat_digits [OF s]
    by (simp add: timeToSeconds_def Let_def str_or_zero_def Math_max_0_Num js_isNaN_def)
qed

lemma timeToSeconds_HH_MM_SS:
  assumes h: "all_digits h" and m: "all_digits m" and s: "all_digits s"
  shows "timeToSeconds fmt (JStr (h @ '':'' @ m @ '':'' @ s))
         = Num (real (dec_val h) * 3600 + real (dec_val m) * 60 + real (dec_val s))"
proof -
  let ?str = "h @ CHR '':'' # m @ CHR '':'' # s"
  have tr: "trim ?str = ?str" using trim_digits_ends [OF h s, of "CHR '':'' # m @ '':''"] by simp
  have np: "\<not> pure_number ?str" by (rule not_pure_number_colon [OF h])
  from h m s have nc: "CHR '':'' \<notin> set h" "CHR '':'' \<notin> set m" "CHR '':'' \<notin> set s"
    by (auto simp: all_digits_def all_digits_no_colon)
  then have parts: "split_char (CHR '':'') ?str = [h, m, s]"
    by (simp add: split_char_append split_char_no_sep)
  from h m s have ne: "h \<noteq> []" "m \<noteq> []" "s \<noteq> []" by (auto simp: all_digits_def)
  show ?thesis
    using tr np parts ne parseInt_digits [OF h] parseInt_digits [OF m] parseFloat_digits [OF s]
    by (simp add: timeToSeconds_def Let_def str_or_zero_def Math_max_0_Num js_isNaN_def)
qed

lemma Math_max_0_ge: "Math_max (Num 0) y \<noteq> NaN \<Longrightarrow> js_ge (Math_max (Num 0) y) (Num 0)"
  by (cases y) (auto simp: Math_max_def js_ge_def)

lemma exponent_part_pos: "0 < fst (exponent_part s)"
  by (cases s) (auto simp: exponent_part_def Let_def split: prod.splits)

lemma decimal_prefix_digit_led:
  assumes "t = c # cs" "is_digit c"
  shows "\<exists>x r. decimal_prefix t = Some (Num x, r) \<and> 0 \<le> x"
proof -
  from assms have ts: "take_sign t = (1, t)" using is_digit_not_special [OF assms(2)] by simp
  from assms have ni: "\<not> startsWith t ''Infinity''" using is_digit_not_special [OF assms(2)]
    by (auto simp: startsWith_def)
  from assms have ip: "takeWhile is_digit t \<noteq> []" by simp
  show ?thesis
    unfolding decimal_prefix_def ts using ni ip exponent_part_pos
    by (auto simp: Let_def split: prod.splits intro!: mult_nonneg_nonneg add_nonneg_nonneg
          dest: less_imp_le) (metis fst_conv less_imp_le)+
qed

lemma pure_number_parseFloat:
  assumes "pure_number str"
  shows "\<exists>x. parseFloat str = Num x \<and> 0 \<le> x"
proof -
  from assms have "takeWhile is_digit str \<noteq> []" by (simp add: pure_number_def Let_def)
  then obtain c cs where str: "str = c # cs" and c: "is_digit c"
    by (cases str) (auto split: if_splits)
  have "trimStart str = str" using is_digit_not_special [OF c] by (simp add: trimStart_def str)
  with decimal_prefix_digit_led [OF str c] show ?thesis by (auto simp: parseFloat_def)
qed

lemma timeToSeconds_nonneg: "js_ge (timeToSeconds fmt v) (Num 0)"
proof -
  have a: "\<And>y. js_ge (if js_isNaN (Math_max (Num 0) y) then Num 0 else Math_max (Num 0) y) (Num 0)"
    using Math_max_0_ge by (auto simp: js_isNaN_def js_ge_def)
  have b: "\<And>n. js_ge (Math_max (Num 0) (Num n)) (Num 0)"
    by (rule Math_max_0_ge) (simp add: Math_max_def)
  have c: "\<And>str. pure_number str \<Longrightarrow> js_ge (Math_max (Num 0) (parseFloat str)) (Num 0)"
    using pure_number_parseFloat b by fastforce
  have z: "js_ge (Num 0) (Num 0)" by (simp add: js_ge_def)
  show ?thesis
    unfolding timeToSeconds_def Let_def
    by (cases v) (simp_all add: js_isNaN_def Math_max_0_ge b c z)
qed


lemma set_trim: "set (trim s) \<subseteq> set s"
proof -
  have "set (dropWhile js_ws (rev (dropWhile js_ws s))) \<subseteq> set (rev (dropWhile js_ws s))"
    by (rule set_dropWhileD [THEN subsetI])
  also have "\<dots> \<subseteq> set s" using set_dropWhileD [of _ js_ws s] by auto
  finally show ?thesis by (simp add: trim_def)
qed

lemma pure_number_no_colon:
  assumes "pure_number str"
  shows "CHR '':'' \<notin> set str"
proof -
  define ip where "ip = takeWhile is_digit str"
  define r where "r = dropWhile is_digit str"
  have str: "str = ip @ r" by (simp add: ip_def r_def)
  have ip: "CHR '':'' \<notin> set ip"
    using is_digit_not_special(1) by (auto simp: ip_def dest: set_takeWhileD)
  from assms have pn: "r = [] \<or> (hd r = CHR ''.'' \<and> (\<forall>c \<in> set (tl r). is_digit c))"
    unfolding pure_number_def Let_def ip_def r_def by blast
  have "CHR '':'' \<notin> set r"
  proof (cases r)
    case Nil
    then show ?thesis by simp
  next
    case (Cons x xs)
    with pn is_digit_not_special(1) show ?thesis by auto
  qed
  with ip str show ?thesis by simp
qed

lemma Math_max_0_clamp:
  "(if js_isNaN (Math_max (Num 0) v) then Num 0 else Math_max (Num 0) v)
   = (if js_ge v (Num 0) then v else Num 0)"
  by (cases v) (auto simp: Math_max_def js_isNaN_def js_ge_def)

lemma timeToSeconds_no_colon:
  assumes "CHR '':'' \<notin> set str"
  shows "timeToSeconds fmt (JStr str)
         = (if js_ge (parseFloat (trim str)) (Num 0) then parseFloat (trim str) else Num 0)"
proof (cases "str = []")
  case True
  then show ?thesis
    by (simp add: timeToSeconds_def trim_def parseFloat_def trimStart_def decimal_prefix_def
          startsWith_def Let_def js_ge_def)
next
  case False
  from assms set_trim [of str] have nc: "CHR '':'' \<notin> set (trim str)" by auto
  then have parts: "split_char (CHR '':'') (trim str) = [trim str]" by (rule split_char_no_sep)
  show ?thesis
  proof (cases "pure_number (trim str)")
    case True
    from pure_number_parseFloat [OF this] obtain x where "parseFloat (trim str) = Num x" "0 \<le> x"
      by blast
    with True False show ?thesis
      by (simp add: timeToSeconds_def Let_def Math_max_def js_ge_def)
  next
    case np: False
    show ?thesis
    proof (cases "trim str = []")
      case True
      have "parseFloat ''0'' = Num 0" by code_simp
      moreover have "parseFloat [] = NaN"
        by (simp add: parseFloat_def trimStart_def decimal_prefix_def startsWith_def Let_def)
      ultimately show ?thesis using True False np
        by (simp add: timeToSeconds_def Let_def str_or_zero_def Math_max_def js_isNaN_def js_ge_def)
    next
      case ne: False
      with False np parts
      have "timeToSeconds fmt (JStr str)
            = (if js_isNaN (Math_max (Num 0) (parseFloat (trim str))) then Num 0
               else Math_max (Num 0) (parseFloat (trim str)))"
        by (simp add: timeToSeconds_def Let_def str_or_zero_def)
      then show ?thesis by (simp only: Math_max_0_clamp)
    qed
  qed
qed

lemma timeToSeconds_many_groups:
  assumes "3 < length (split_char (CHR '':'') (trim str))"
  shows "timeToSeconds fmt (JStr str) = Num 0"
proof -
  have "\<not> pure_number (trim str)"
  proof
    assume "pure_number (trim str)"
    from pure_number_no_colon [OF this] have "split_char (CHR '':'') (trim str) = [trim str]"
      by (rule split_char_no_sep)
    with assms show False by simp
  qed
  with assms show ?thesis
    by (simp add: timeToSeconds_def Let_def Math_max_def js_isNaN_def)
qed

lemma sample_time_values:
  "all_digits ''02''" "all_digits ''30''" "all_digits ''1''" "all_digits ''05''"
  "dec_val ''02'' = 2" "dec_val ''30'' = 30" "dec_val ''1'' = 1" "dec_val ''05'' = 5"
  by code_simp+

text \<open>
  Claim C8, as stated, fails for malformed and for negative strings: \<open>parseFloat\<close> and
  \<open>parseInt\<close> read the longest numeric prefix, so \<open>12abc\<close> gives 12, and only the
  total is clamped, so \<open>-0:30\<close> gives 30.
\<close>

theorem timeToSeconds_malformed_counterexample:
  "timeToSeconds (\<lambda>x. []) (JStr ''12abc'') = Num 12
   \<and> timeToSeconds (\<lambda>x. []) (JStr ''-0:30'') = Num 30"
  by code_simp

text \<open>
  Claim C8, amended. For every string \<open>MM:SS\<close> of decimal digits \<open>timeToSeconds\<close>
  returns minutes * 60 + seconds, and for every string \<open>HH:MM:SS\<close> of decimal digits
  hours * 3600 + minutes * 60 + seconds. It is total (it never throws) and its result is
  never \<open>NaN\<close> and never negative. For a string without a colon the result is the
  value \<open>parseFloat\<close> reads from the trimmed string (its longest numeric prefix), and 0
  when that value is \<open>NaN\<close> or negative. For a string of more than three
  colon-separated groups the result is 0.
\<close>

theorem timeToSeconds_formats_and_clamp:
  "(all_digits m \<and> all_digits s \<longrightarrow>
      timeToSeconds fmt (JStr (m @ '':'' @ s)) = Num (real (dec_val m) * 60 + real (dec_val s)))
   \<and> (all_digits h \<and> all_digits m' \<and> all_digits s' \<longrightarrow>
        timeToSeconds fmt (JStr (h @ '':'' @ m' @ '':'' @ s'))
        = Num (real (dec_val h) * 3600 + real (dec_val m') * 60 + real (dec_val s')))
   \<and> js_ge (timeToSeconds fmt v) (Num 0)
   \<and> (CHR '':'' \<notin> set str \<longrightarrow>
        timeToSeconds fmt (JStr str)
        = (if js_ge (parseFloat (trim str)) (Num 0) then parseFloat (trim str) else Num 0))
   \<and> (3 < length (split_char (CHR '':'') (trim str')) \<longrightarrow> timeToSeconds fmt (JStr str') = Num 0)"
  using timeToSeconds_MM_SS [of m s fmt] timeToSeconds_HH_MM_SS [of h m' s' fmt]
    timeToSeconds_nonneg [of fmt v] timeToSeconds_no_colon [of str fmt]
    timeToSeconds_many_groups [of str' fmt]
  by blast

theorem timeToSeconds_formats_witness:
  "all_digits ''02'' \<and> all_digits ''30'' \<and> all_digits ''1'' \<and> all_digits ''05''
   \<and> timeToSeconds (\<lambda>x. []) (JStr ''02:30'') = Num 150
   \<and> timeToSeconds (\<lambda>x. []) (JStr ''1:02:05'') = Num 3725
   \<and> 3 < length (split_char (CHR '':'') (trim ''1:2:3:4''))
   \<and> timeToSeconds (\<lambda>x. []) (JStr ''1:2:3:4'') = Num 0
   \<and> CHR '':'' \<notin> set ''abc''
   \<and> timeToSeconds (\<lambda>x. []) (JStr ''abc'') = Num 0"
proof -
  have g: "3 < length (split_char (CHR '':'') (trim ''1:2:3:4''))" by code_simp
  have c: "CHR '':'' \<notin> set ''abc''" by simp
  have p: "parseFloat (trim ''abc'') = NaN" by code_simp
  show ?thesis
    using timeToSeconds_formats_and_clamp
            [of "''02''" "''30''" "\<lambda>x. []" "''1''" "''02''" "''05''" JNull "''abc''" "''1:2:3:4''"]
      sample_time_values g c p
    by (simp add: js_ge_def)
qed

subsection \<open>Parser: the entry invariant\<close>

text \<open>
  Strategies 1 and 3 validate what they push: every entry they return satisfies
  \<open>end > start >= 0\<close>.
\<close>

lemma walker_keeps_invariant:
  "list_all entry_ok ts \<Longrightarrow> list_all entry_ok (fst (extractTimestampsFromObject fmt v ts))"
  "list_all entry_ok ts \<Longrightarrow> list_all entry_ok (fst (walk_items fmt xs ts))"
  "list_all entry_ok ts \<Longrightarrow> list_all entry_ok (fst (walk_values fmt kvs ts))"
proof (induction fmt v ts and fmt xs ts and fmt kvs ts
       rule: extractTimestampsFromObject_walk_items_walk_values.induct)
  case (2 fmt kvs ts)
  then show ?case
    by (auto simp: entry_ok_def Let_def simp del: json_field.simps split: json.splits)
next
  case (8 fmt x xs ts)
  then show ?case by (auto split: prod.splits bool.splits)
next
  case (10 fmt kv kvs ts)
  then show ?case by (auto split: prod.splits bool.splits)
qed simp_all

lemma set_insert_by_start: "set (insert_by_start x xs) = insert x (set xs)"
  by (induction xs) auto

lemma set_sort_by_start: "set (sort_by_start xs) = set xs"
  by (induction xs) (simp_all add: sort_by_start_def set_insert_by_start)

lemma parseDirectJSON_invariant: "list_all entry_ok (parseDirectJSON parse fmt content)"
proof -
  have "list_all entry_ok ts \<Longrightarrow>
        list_all entry_ok (foldl (\<lambda>ts m. case parse m of None \<Rightarrow> ts
              | Some parsed \<Rightarrow> fst (extractTimestampsFromObject fmt parsed ts)) ts ms)" for ts ms
    by (induction ms arbitrary: ts) (auto simp: walker_keeps_invariant split: option.splits)
  from this [of "[]"] show ?thesis
    by (simp add: parseDirectJSON_def Let_def list_all_iff set_sort_by_start)
qed

lemma validated_matches_invariant: "list_all entry_ok (validated_matches fmt content)"
  by (induction fmt content rule: validated_matches.induct)
     (auto simp: entry_ok_def Let_def split: option.splits)

lemma parseWithValidation_invariant: "list_all entry_ok (parseWithValidation fmt content)"
  using validated_matches_invariant [of fmt content]
  by (simp add: parseWithValidation_def list_all_iff set_sort_by_start)

text \<open>
  Claim C2 fails on the code through strategy 2. \<open>parseJSONStream\<close> and
  \<open>extractFromPartialLine\<close> push what they read without the validation that the
  walker of strategy 1 (\<open>FIXED: Validate timestamps before adding\<close>) and
  \<open>parseWithValidation\<close> apply. For the one-line transcript
  \<open>{"text":"a","start":"5","end":"3"}\<close> strategy 1 rejects the object, returns nothing,
  and strategy 2 then returns the entry with start 5 and end 3. The fragment
  \<open>"text": "a", "start": "5", "end": "3"\<close>, which is no JSON, gives the same entry
  through \<open>extractFromPartialLine\<close>.
\<close>

theorem parser_returns_inverted_entry:
  "parseTimestampsRobustly (parses_to inverted_line inverted_object) (\<lambda>x. []) inverted_line
     = [\<lparr>e_text = ''a'', e_start = Num 5, e_end = Num 3, e_confidence = JNum 1\<rparr>]
   \<and> parseTimestampsRobustly (\<lambda>s. None) (\<lambda>x. []) inverted_fragment
     = [\<lparr>e_text = ''a'', e_start = Num 5, e_end = Num 3, e_confidence = JNum (7 / 10)\<rparr>]
   \<and> \<not> entry_ok \<lparr>e_text = ''a'', e_start = Num 5, e_end = Num 3, e_confidence = JNum 1\<rparr>
   \<and> \<not> entry_ok \<lparr>e_text = ''a'', e_start = Num 5, e_end = Num 3, e_confidence = JNum (7 / 10)\<rparr>"
  by code_simp

subsection \<open>Parser: a numeric start of zero\<close>

lemma walk_values_scalars:
  "list_all (\<lambda>kv. is_scalar (snd kv)) kvs \<Longrightarrow> walk_values fmt kvs ts = (ts, False)"
proof (induction kvs)
  case Nil
  show ?case by simp
next
  case (Cons kv kvs)
  then have "is_scalar (snd kv)" by simp
  then have "extractTimestampsFromObject fmt (snd kv) ts = (ts, False)"
    by (cases "snd kv") (simp_all add: is_scalar_def)
  with Cons show ?case by simp
qed

lemma numeric_zero_not_pushed:
  assumes start: "json_field (JObj kvs) ''start'' = JNum 0"
  shows "extractTimestampsFromObject fmt (JObj kvs) ts = walk_values fmt kvs ts
         \<and> (list_all (\<lambda>kv. is_scalar (snd kv)) kvs \<longrightarrow>
              extractTimestampsFromObject fmt (JObj kvs) ts = (ts, False))
         \<and> (parse (strip_trailing_comma (trim line)) = Some (JObj kvs) \<longrightarrow>
              stream_line parse fmt ts line = ts)"
proof -
  from start have nt: "\<not> truthy (json_field (JObj kvs) ''start'')" by simp
  from nt have w: "extractTimestampsFromObject fmt (JObj kvs) ts = walk_values fmt kvs ts"
    by (simp del: json_field.simps)
  moreover have "list_all (\<lambda>kv. is_scalar (snd kv)) kvs \<longrightarrow>
           extractTimestampsFromObject fmt (JObj kvs) ts = (ts, False)"
    using w walk_values_scalars by simp
  moreover have "parse (strip_trailing_comma (trim line)) = Some (JObj kvs) \<longrightarrow>
           stream_line parse fmt ts line = ts"
    using nt by (simp add: stream_line_def Let_def del: json_field.simps)
  ultimately show ?thesis by blast
qed

lemma timeToSeconds_zero_values:
  "timeToSeconds fmt (JStr ''0'') = Num 0"
  "timeToSeconds fmt (JStr ''00:00'') = Num 0"
proof -
  have "timeToSeconds (\<lambda>x. []) (JStr ''0'') = Num 0" "timeToSeconds (\<lambda>x. []) (JStr ''00:00'') = Num 0"
    by code_simp+
  then show "timeToSeconds fmt (JStr ''0'') = Num 0" "timeToSeconds fmt (JStr ''00:00'') = Num 0"
    by (simp_all add: timeToSeconds_def)
qed

lemma timeToSeconds_negative_number: "x < 0 \<Longrightarrow> timeToSeconds fmt (JNum x) = Num 0"
  by (simp add: timeToSeconds_def Math_max_def)

lemma walker_pushes:
  assumes "json_field (JObj kvs) ''text'' = JStr s" "trim s \<noteq> []"
    "truthy (json_field (JObj kvs) ''start'')" "truthy (json_field (JObj kvs) ''end'')"
    "js_ge (timeToSeconds fmt (json_field (JObj kvs) ''start'')) (Num 0)"
    "js_gt (timeToSeconds fmt (json_field (JObj kvs) ''end'')) (timeToSeconds fmt (json_field (JObj kvs) ''start''))"
  shows "extractTimestampsFromObject fmt (JObj kvs) ts =
           (ts @ [\<lparr>e_text = trim s, e_start = timeToSeconds fmt (json_field (JObj kvs) ''start''),
                   e_end = timeToSeconds fmt (json_field (JObj kvs) ''end''),
                   e_confidence = confidence_or_one (JObj kvs)\<rparr>], False)"
proof -
  from assms(2) have "s \<noteq> []" by (auto simp: trim_def)
  with assms show ?thesis by (simp add: Let_def del: json_field.simps)
qed

lemma stream_line_pushes:
  assumes "json_field (JObj kvs) ''text'' = JStr s" "s \<noteq> []"
    "truthy (json_field (JObj kvs) ''start'')" "truthy (json_field (JObj kvs) ''end'')"
    "trim line \<noteq> []"
    \<open>js_includes (trim line) ''"text"'' \<or> js_includes (trim line) ''"start"''\<close>
    "parse (strip_trailing_comma (trim line)) = Some (JObj kvs)"
  shows "stream_line parse fmt ts line =
           ts @ [\<lparr>e_text = trim s, e_start = timeToSeconds fmt (json_field (JObj kvs) ''start''),
                   e_end = timeToSeconds fmt (json_field (JObj kvs) ''end''),
                   e_confidence = confidence_or_one (JObj kvs)\<rparr>]"
  using assms by (auto simp: stream_line_def Let_def simp del: json_field.simps)


lemma zero_start_sample_facts:
  "json_field (JObj zero_start_fields) ''start'' = JNum 0"
  "json_field (JObj zero_start_fields) ''text'' = JStr ''hello''"
  "json_field (JObj zero_start_fields) ''end'' = JNum 5"
  "list_all (\<lambda>kv. is_scalar (snd kv)) zero_start_fields"
  "parses_to zero_start_line (JObj zero_start_fields) (strip_trailing_comma (trim zero_start_line))
     = Some (JObj zero_start_fields)"
  "parseDirectJSON (parses_to zero_start_line (JObj zero_start_fields)) (\<lambda>x. []) zero_start_line = []"
  "parseJSONStream (parses_to zero_start_line (JObj zero_start_fields)) (\<lambda>x. []) zero_start_line = []"
  by code_simp+

lemma string_zero_sample_facts:
  "json_field (JObj string_zero_fields) ''text'' = JStr ''hello''"
  "json_field (JObj string_zero_fields) ''start'' = JStr ''0''"
  "json_field (JObj string_zero_fields) ''end'' = JNum 5"
  "trim ''hello'' = ''hello''"
  "trim string_zero_line = string_zero_line"
  \<open>js_includes string_zero_line ''"text"''\<close>
  "parses_to string_zero_line (JObj string_zero_fields) (strip_trailing_comma string_zero_line)
     = Some (JObj string_zero_fields)"
  "confidence_or_one (JObj string_zero_fields) = JNum 1"
  "string_zero_line \<noteq> []"
  by code_simp+

text \<open>
  Claim C10, as stated, fails in its conclusion: the two strategies do emit entries whose
  start is exactly 0. The existence check \<open>obj.text && obj.start && obj.end\<close> only
  rejects a falsy start. The string \<open>"0"\<close> is truthy and \<open>timeToSeconds\<close> reads it
  as 0; the number \<open>-5\<close> is truthy and \<open>timeToSeconds\<close> clamps it to 0. Both the
  walker (through \<open>parseDirectJSON\<close>) and the line parser return the entry with start
  0 for such an object.
\<close>

theorem zero_start_entry_counterexample:
  "parseDirectJSON (parses_to string_zero_line (JObj string_zero_fields)) (\<lambda>x. []) string_zero_line
     = [\<lparr>e_text = ''hello'', e_start = Num 0, e_end = Num 5, e_confidence = JNum 1\<rparr>]
   \<and> parseJSONStream (parses_to string_zero_line (JObj string_zero_fields)) (\<lambda>x. []) string_zero_line
     = [\<lparr>e_text = ''hello'', e_start = Num 0, e_end = Num 5, e_confidence = JNum 1\<rparr>]
   \<and> parseDirectJSON (parses_to negative_start_line (JObj negative_start_fields)) (\<lambda>x. [])
         negative_start_line
     = [\<lparr>e_text = ''hello'', e_start = Num 0, e_end = Num 5, e_confidence = JNum 1\<rparr>]
   \<and> parseJSONStream (parses_to negative_start_line (JObj negative_start_fields)) (\<lambda>x. [])
         negative_start_line
     = [\<lparr>e_text = ''hello'', e_start = Num 0, e_end = Num 5, e_confidence = JNum 1\<rparr>]"
  by code_simp

text \<open>
  Claim C10, amended. For every JSON object whose \<open>start\<close> is the number 0 (whatever
  its text and its end), the walker of strategy 1 makes no entry of the object: it only
  descends into the values of the object, which yields nothing when they are scalars; and
  the line parser of strategy 2 pushes nothing for a line that parses to such an object.
  An entry whose start is exactly 0 is emitted all the same when the start is truthy and
  \<open>timeToSeconds\<close> reads it as 0: for every object with a string text that is not
  blank, such a start, and a truthy end that \<open>timeToSeconds\<close> reads as more than 0,
  the walker pushes the entry with start 0, and so does the line parser for a line that
  mentions \<open>"text"\<close> or \<open>"start"\<close> and parses to the object. The strings
  \<open>"0"\<close> and \<open>"00:00"\<close> and every negative number are such starts.
\<close>

theorem numeric_zero_dropped_truthy_zero_kept:
  \<open>(json_field (JObj kvs0) ''start'' = JNum 0 \<longrightarrow>
        extractTimestampsFromObject fmt (JObj kvs0) ts = walk_values fmt kvs0 ts
      \<and> (list_all (\<lambda>kv. is_scalar (snd kv)) kvs0 \<longrightarrow>
            extractTimestampsFromObject fmt (JObj kvs0) ts = (ts, False))
      \<and> (parse0 (strip_trailing_comma (trim line0)) = Some (JObj kvs0) \<longrightarrow>
            stream_line parse0 fmt ts line0 = ts))
   \<and> (json_field (JObj kvs) ''text'' = JStr s \<and> trim s \<noteq> []
       \<and> truthy (json_field (JObj kvs) ''start'')
       \<and> timeToSeconds fmt (json_field (JObj kvs) ''start'') = Num 0
       \<and> truthy (json_field (JObj kvs) ''end'')
       \<and> js_gt (timeToSeconds fmt (json_field (JObj kvs) ''end'')) (Num 0) \<longrightarrow>
        extractTimestampsFromObject fmt (JObj kvs) ts =
          (ts @ [\<lparr>e_text = trim s, e_start = Num 0,
                  e_end = timeToSeconds fmt (json_field (JObj kvs) ''end''),
                  e_confidence = confidence_or_one (JObj kvs)\<rparr>], False)
      \<and> (trim line \<noteq> []
          \<and> (js_includes (trim line) ''"text"'' \<or> js_includes (trim line) ''"start"'')
          \<and> parse (strip_trailing_comma (trim line)) = Some (JObj kvs) \<longrightarrow>
            stream_line parse fmt ts line =
              ts @ [\<lparr>e_text = trim s, e_start = Num 0,
                     e_end = timeToSeconds fmt (json_field (JObj kvs) ''end''),
                     e_confidence = confidence_or_one (JObj kvs)\<rparr>]))
   \<and> truthy (JStr ''0'') \<and> timeToSeconds fmt (JStr ''0'') = Num 0
   \<and> truthy (JStr ''00:00'') \<and> timeToSeconds fmt (JStr ''00:00'') = Num 0
   \<and> (x < 0 \<longrightarrow> truthy (JNum x) \<and> timeToSeconds fmt (JNum x) = Num 0)\<close>
proof -
  have A: "json_field (JObj kvs0) ''start'' = JNum 0 \<longrightarrow>
        extractTimestampsFromObject fmt (JObj kvs0) ts = walk_values fmt kvs0 ts
      \<and> (list_all (\<lambda>kv. is_scalar (snd kv)) kvs0 \<longrightarrow>
            extractTimestampsFromObject fmt (JObj kvs0) ts = (ts, False))
      \<and> (parse0 (strip_trailing_comma (trim line0)) = Some (JObj kvs0) \<longrightarrow>
            stream_line parse0 fmt ts line0 = ts)"
    using numeric_zero_not_pushed [of kvs0 fmt ts parse0 line0] by blast
  have B: \<open>json_field (JObj kvs) ''text'' = JStr s \<and> trim s \<noteq> []
       \<and> truthy (json_field (JObj kvs) ''start'')
       \<and> timeToSeconds fmt (json_field (JObj kvs) ''start'') = Num 0
       \<and> truthy (json_field (JObj kvs) ''end'')
       \<and> js_gt (timeToSeconds fmt (json_field (JObj kvs) ''end'')) (Num 0) \<longrightarrow>
        extractTimestampsFromObject fmt (JObj kvs) ts =
          (ts @ [\<lparr>e_text = trim s, e_start = Num 0,
                  e_end = timeToSeconds fmt (json_field (JObj kvs) ''end''),
                  e_confidence = confidence_or_one (JObj kvs)\<rparr>], False)
      \<and> (trim line \<noteq> []
          \<and> (js_includes (trim line) ''"text"'' \<or> js_includes (trim line) ''"start"'')
          \<and> parse (strip_trailing_comma (trim line)) = Some (JObj kvs) \<longrightarrow>
            stream_line parse fmt ts line =
              ts @ [\<lparr>e_text = trim s, e_start = Num 0,
                     e_end = timeToSeconds fmt (json_field (JObj kvs) ''end''),
                     e_confidence = confidence_or_one (JObj kvs)\<rparr>])\<close>
  proof (intro impI, elim conjE)
    assume h: "json_field (JObj kvs) ''text'' = JStr s" "trim s \<noteq> []"
      "truthy (json_field (JObj kvs) ''start'')"
      "timeToSeconds fmt (json_field (JObj kvs) ''start'') = Num 0"
      "truthy (json_field (JObj kvs) ''end'')"
      "js_gt (timeToSeconds fmt (json_field (JObj kvs) ''end'')) (Num 0)"
    from h(2) have ne: "s \<noteq> []" by (auto simp: trim_def)
    from h(4) have ge: "js_ge (timeToSeconds fmt (json_field (JObj kvs) ''start'')) (Num 0)"
      by (simp add: js_ge_def)
    from h(4,6) have gt: "js_gt (timeToSeconds fmt (json_field (JObj kvs) ''end''))
        (timeToSeconds fmt (json_field (JObj kvs) ''start''))" by simp
    have 1: "extractTimestampsFromObject fmt (JObj kvs) ts =
          (ts @ [\<lparr>e_text = trim s, e_start = Num 0,
                  e_end = timeToSeconds fmt (json_field (JObj kvs) ''end''),
                  e_confidence = confidence_or_one (JObj kvs)\<rparr>], False)"
      using walker_pushes [OF h(1,2,3,5) ge gt, of ts] h(4) by simp
    have 2: \<open>trim line \<noteq> []
          \<and> (js_includes (trim line) ''"text"'' \<or> js_includes (trim line) ''"start"'')
          \<and> parse (strip_trailing_comma (trim line)) = Some (JObj kvs) \<longrightarrow>
            stream_line parse fmt ts line =
              ts @ [\<lparr>e_text = trim s, e_start = Num 0,
                     e_end = timeToSeconds fmt (json_field (JObj kvs) ''end''),
                     e_confidence = confidence_or_one (JObj kvs)\<rparr>]\<close>
      using stream_line_pushes [OF h(1) ne h(3,5), of line parse fmt ts] h(4) by simp
    from 1 2 show \<open>extractTimestampsFromObject fmt (JObj kvs) ts =
          (ts @ [\<lparr>e_text = trim s, e_start = Num 0,
                  e_end = timeToSeconds fmt (json_field (JObj kvs) ''end''),
                  e_confidence = confidence_or_one (JObj kvs)\<rparr>], False)
      \<and> (trim line \<noteq> []
          \<and> (js_includes (trim line) ''"text"'' \<or> js_includes (trim line) ''"start"'')
          \<and> parse (strip_trailing_comma (trim line)) = Some (JObj kvs) \<longrightarrow>
            stream_line parse fmt ts line =
              ts @ [\<lparr>e_text = trim s, e_start = Num 0,
                     e_end = timeToSeconds fmt (json_field (JObj kvs) ''end''),
                     e_confidence = confidence_or_one (JObj kvs)\<rparr>])\<close>
      by (rule conjI)
  qed
  have C: "truthy (JStr ''0'')" "truthy (JStr ''00:00'')" by simp_all
  have D: "x < 0 \<longrightarrow> truthy (JNum x) \<and> timeToSeconds fmt (JNum x) = Num 0"
    using timeToSeconds_negative_number [of x fmt] by simp
  from A B C D timeToSeconds_zero_values [of fmt] show ?thesis by blast
qed

theorem numeric_zero_dropped_truthy_zero_kept_witness:
  "json_field (JObj zero_start_fields) ''start'' = JNum 0
   \<and> list_all (\<lambda>kv. is_scalar (snd kv)) zero_start_fields
   \<and> extractTimestampsFromObject (\<lambda>x. []) (JObj zero_start_fields) [] = ([], False)
   \<and> parses_to zero_start_line (JObj zero_start_fields) (strip_trailing_comma (trim zero_start_line))
       = Some (JObj zero_start_fields)
   \<and> stream_line (parses_to zero_start_line (JObj zero_start_fields)) (\<lambda>x. []) [] zero_start_line = []
   \<and> json_field (JObj string_zero_fields) ''text'' = JStr ''hello''
   \<and> trim ''hello'' \<noteq> []
   \<and> truthy (json_field (JObj string_zero_fields) ''start'')
   \<and> timeToSeconds (\<lambda>x. []) (json_field (JObj string_zero_fields) ''start'') = Num 0
   \<and> truthy (json_field (JObj string_zero_fields) ''end'')
   \<and> js_gt (timeToSeconds (\<lambda>x. []) (json_field (JObj string_zero_fields) ''end'')) (Num 0)
   \<and> extractTimestampsFromObject (\<lambda>x. []) (JObj string_zero_fields) []
       = ([\<lparr>e_text = ''hello'', e_start = Num 0, e_end = Num 5, e_confidence = JNum 1\<rparr>], False)
   \<and> trim string_zero_line \<noteq> []
   \<and> parses_to string_zero_line (JObj string_zero_fields) (strip_trailing_comma (trim string_zero_line))
       = Some (JObj string_zero_fields)
   \<and> stream_line (parses_to string_zero_line (JObj string_zero_fields)) (\<lambda>x. []) [] string_zero_line
       = [\<lparr>e_text = ''hello'', e_start = Num 0, e_end = Num 5, e_confidence = JNum 1\<rparr>]
   \<and> (- 5 :: real) < 0
   \<and> timeToSeconds (\<lambda>x. []) (JNum (- 5)) = Num 0"
proof -
  have t: "timeToSeconds (\<lambda>x. []) (JNum 5) = Num 5"
    "timeToSeconds (\<lambda>x. []) (JNum (- 5)) = Num 0"
    by (simp_all add: timeToSeconds_def Math_max_def)
  note z = timeToSeconds_zero_values [of "\<lambda>x. []"]
  show ?thesis
    using numeric_zero_dropped_truthy_zero_kept
          [of zero_start_fields "\<lambda>x. []" "[]" "parses_to zero_start_line (JObj zero_start_fields)"
              zero_start_line string_zero_fields "''hello''" string_zero_line
              "parses_to string_zero_line (JObj string_zero_fields)" "- 5"]
      zero_start_sample_facts string_zero_sample_facts t z
    by (auto simp add: js_gt_def
          simp del: json_field.simps extractTimestampsFromObject.simps walk_values.simps)
qed

subsection \<open>Video file resolver\<close>

text \<open>
  Claim C7, as stated, fails on the resolver in use: it removes only the literal
  \<open>_sentences.json\<close> and compares for exact, case-sensitive equality. A candidate
  that differs from the URI's name only in case, a URI with the suffix
  \<open>_transcript\<close>, and a candidate whose name contains the URI's name are all turned
  down, although the comparison of the claim accepts each of them.
\<close>

theorem findVideoFile_containment_counterexample:
  "findVideoFile (Some [''intro.mp4'']) ''s3://kb/Intro_sentences.json'' = None
   \<and> toLowerCase (s3Filename ''s3://kb/Intro_sentences.json'') = toLowerCase (strip_video_ext ''intro.mp4'')
   \<and> findVideoFile (Some [''lesson.mp4'']) ''s3://kb/lesson_transcript.json'' = None
   \<and> findVideoFile (Some [''lesson-part1.mp4'']) ''s3://kb/lesson_sentences.json'' = None
   \<and> js_includes (toLowerCase (strip_video_ext ''lesson-part1.mp4''))
         (toLowerCase (s3Filename ''s3://kb/lesson_sentences.json''))"
  by code_simp

text \<open>
  Claim C7, amended. For every storage URI and every directory listing,
  \<open>findVideoFile\<close> of \<open>IndustryStandardVideoExtractor\<close> takes the last path segment
  of the URI, removes the first occurrence of \<open>_sentences.json\<close> from it, and returns
  the first video file of the listing whose name without its video extension is exactly
  (case-sensitively) equal to that name. It returns none exactly when the URI is empty or
  no video file of the listing matches in this way, without any guess.
\<close>

theorem findVideoFile_exact_or_none:
  "(findVideoFile rd uri = Some f \<longrightarrow>
      f \<in> set (findAllVideoFiles rd) \<and> strip_video_ext f = s3Filename uri)
   \<and> (findVideoFile rd uri = None \<longleftrightarrow>
        uri = [] \<or> \<not> (\<exists>g \<in> set (findAllVideoFiles rd). strip_video_ext g = s3Filename uri))
   \<and> (findVideoFile rd uri = Some f \<longrightarrow>
        (\<exists>i < length (findAllVideoFiles rd). findAllVideoFiles rd ! i = f
           \<and> (\<forall>j < i. strip_video_ext (findAllVideoFiles rd ! j) \<noteq> s3Filename uri)))"
  by (auto simp: findVideoFile_def Let_def find_Some_iff find_None_iff)

lemma findVideoFile_sample:
  "findVideoFile (Some [''notes.txt'', ''Lesson-1.MP4'']) ''s3://kb/transcripts/Lesson-1_sentences.json''
     = Some ''Lesson-1.MP4''"
  "findAllVideoFiles (Some [''notes.txt'', ''Lesson-1.MP4'']) = [''Lesson-1.MP4'']"
  "s3Filename ''s3://kb/transcripts/Lesson-1_sentences.json'' = ''Lesson-1''"
  by code_simp+

theorem findVideoFile_exact_witness:
  "findVideoFile (Some [''notes.txt'', ''Lesson-1.MP4'']) ''s3://kb/transcripts/Lesson-1_sentences.json''
     = Some ''Lesson-1.MP4''
   \<and> ''Lesson-1.MP4'' \<in> set (findAllVideoFiles (Some [''notes.txt'', ''Lesson-1.MP4'']))
   \<and> strip_video_ext ''Lesson-1.MP4'' = ''Lesson-1''
   \<and> s3Filename ''s3://kb/transcripts/Lesson-1_sentences.json'' = ''Lesson-1''"
  using findVideoFile_exact_or_none
          [of "Some [''notes.txt'', ''Lesson-1.MP4'']"
              "''s3://kb/transcripts/Lesson-1_sentences.json''" "''Lesson-1.MP4''"]
    findVideoFile_sample
  by simp

subsection \<open>Assembler: timestamp normalization\<close>

lemma Num_arith [simp]:
  "Math_max (Num x) (Num y) = Num (max x y)"
  "Math_min (Num x) (Num y) = Num (min x y)"
  "js_sub (Num x) (Num y) = Num (x - y)"
  "js_gt (Num x) (Num y) = (y < x)"
  "js_ge (Num x) (Num y) = (y \<le> x)"
  "js_isFinite (Num x)"
  "(if c then Num x else Num y) = Num (if c then x else y)"
  by (auto simp: Math_max_def Math_min_def js_sub_def js_gt_def js_ge_def js_isFinite_def)

lemma normalizeTimes_finite:
  assumes "normalizeTimestamp rawStart = Num a" "normalizeTimestamp rawEnd = Num b" "0 < d"
  shows "normalizeTimes rawStart rawEnd (Num d) =
           (let e1 = (if b \<le> a then a + 5 else b);
                e2 = (if e1 - a < 3 then a + 3 else e1);
                M = d - 2;
                e3 = (if M < e2 then M else e2);
                s3 = (if M < e2 then max 0 (M - (e2 - a)) else a);
                s4 = max 0 (min s3 (M - 3));
                e4 = max (s4 + 3) (min e3 M)
            in (Num s4, Num e4))"
  using assms by (simp add: normalizeTimes_def Let_def split del: if_split cong: if_cong)


lemma normalizeTimes_no_duration:
  assumes "normalizeTimestamp rawStart = Num a" "normalizeTimestamp rawEnd = Num b"
    "\<not> (js_isFinite dur \<and> js_gt dur (Num 0))"
  shows "\<exists>e. normalizeTimes rawStart rawEnd dur = (Num a, Num e) \<and> a + 3 \<le> e"
proof -
  from assms(3) have c: "(js_isFinite dur \<and> js_gt dur (Num 0)) = False" by simp
  from assms(1,2) have "normalizeTimes rawStart rawEnd dur
      = (Num a, Num (if (if b \<le> a then a + 5 else b) - a < 3 then a + 3
                     else if b \<le> a then a + 5 else b))"
    unfolding normalizeTimes_def Let_def c
    by (simp split del: if_split cong: if_cong)
  moreover have "a + 3 \<le> (if (if b \<le> a then a + 5 else b) - a < 3 then a + 3
                     else if b \<le> a then a + 5 else b)"
    by simp
  ultimately show ?thesis by blast
qed









lemma normalizeTimes_short_video:
  assumes "normalizeTimestamp rawStart = Num a" "normalizeTimestamp rawEnd = Num b" "0 < d" "d < 5"
  shows "normalizeTimes rawStart rawEnd (Num d) = (Num 0, Num 3)"
proof -
  define e1 where "e1 = (if b \<le> a then a + 5 else b)"
  define e2 where "e2 = (if e1 - a < 3 then a + 3 else e1)"
  define M where "M = d - 2"
  define e3 where "e3 = (if M < e2 then M else e2)"
  define s3 where "s3 = (if M < e2 then max 0 (M - (e2 - a)) else a)"
  define s4 where "s4 = max 0 (min s3 (M - 3))"
  define e4 where "e4 = max (s4 + 3) (min e3 M)"
  have eq: "normalizeTimes rawStart rawEnd (Num d) = (Num s4, Num e4)"
    unfolding normalizeTimes_finite [OF assms(1,2,3)] e1_def e2_def M_def e3_def s3_def s4_def
      e4_def Let_def ..
  from assms(4) have "M - 3 < 0" by (simp add: M_def)
  then have 1: "s4 = 0" by (simp add: s4_def)
  from assms(4) have "M < 3" by (simp add: M_def)
  then have "e4 = 3" by (simp add: e4_def 1)
  with eq 1 show ?thesis by simp
qed




subsection \<open>Assembler: deduplication\<close>

text \<open>
  \<open>deduplicateSegments\<close> keeps its invariant: the content segments of its result have
  pairwise different keys.
\<close>

lemma content_not_special: "\<not> special_type (Some ''content'')"
  by (simp add: special_type_def)

lemma indexOf_Some:
  "x \<in> set xs \<Longrightarrow> \<exists>i. indexOf xs x = Some i \<and> i < length xs \<and> xs ! i = x"
proof (induction xs)
  case Nil
  then show ?case by simp
next
  case (Cons y ys)
  show ?case
  proof (cases "y = x")
    case True
    then show ?thesis by simp
  next
    case False
    with Cons obtain i where "indexOf ys x = Some i" "i < length ys" "ys ! i = x" by auto
    with False show ?thesis by simp
  qed
qed

lemma indexOf_SomeD: "indexOf xs x = Some i \<Longrightarrow> i < length xs \<and> xs ! i = x"
  by (induction xs arbitrary: i) (auto split: if_splits option.splits)

lemma dedup_inv_append_special:
  assumes inv: "dedup_inv fmt (seen, us)" and sp: "\<not> is_content s"
  shows "dedup_inv fmt (seen, us @ [s])"
proof -
  from inv have I1: "\<And>k x. seen k = Some x \<Longrightarrow> x \<in> set us \<and> valid_content x \<and> getSegmentKey fmt x = k"
    and I2: "\<And>u. u \<in> set us \<Longrightarrow> is_content u \<Longrightarrow> seen (getSegmentKey fmt u) = Some u"
    and I3: "\<And>i j. i < length us \<Longrightarrow> j < length us \<Longrightarrow> i \<noteq> j \<Longrightarrow> is_content (us ! i)
               \<Longrightarrow> is_content (us ! j) \<Longrightarrow> getSegmentKey fmt (us ! i) \<noteq> getSegmentKey fmt (us ! j)"
    unfolding dedup_inv_def by blast+
  have A: "\<forall>k x. seen k = Some x \<longrightarrow>
             x \<in> set (us @ [s]) \<and> valid_content x \<and> getSegmentKey fmt x = k"
    using I1 by simp
  have B: "\<forall>u \<in> set (us @ [s]). is_content u \<longrightarrow> seen (getSegmentKey fmt u) = Some u"
    using I2 sp by auto
  have C: "\<forall>i j. i < length (us @ [s]) \<and> j < length (us @ [s]) \<and> i \<noteq> j
             \<and> is_content ((us @ [s]) ! i) \<and> is_content ((us @ [s]) ! j)
             \<longrightarrow> getSegmentKey fmt ((us @ [s]) ! i) \<noteq> getSegmentKey fmt ((us @ [s]) ! j)"
  proof (intro allI impI)
    fix i j
    assume h: "i < length (us @ [s]) \<and> j < length (us @ [s]) \<and> i \<noteq> j
             \<and> is_content ((us @ [s]) ! i) \<and> is_content ((us @ [s]) ! j)"
    have i: "i < length us"
    proof (rule ccontr)
      assume "\<not> i < length us"
      with h have "i = length us" by simp
      with h sp show False by simp
    qed
    have j: "j < length us"
    proof (rule ccontr)
      assume "\<not> j < length us"
      with h have "j = length us" by simp
      with h sp show False by simp
    qed
    from i j h I3 [of i j]
    show "getSegmentKey fmt ((us @ [s]) ! i) \<noteq> getSegmentKey fmt ((us @ [s]) ! j)"
      by (simp add: nth_append)
  qed
  show ?thesis unfolding dedup_inv_def prod.case by (rule conjI [OF A conjI [OF B C]])
qed

lemma dedup_inv_append_new:
  assumes inv: "dedup_inv fmt (seen, us)" and v: "valid_content s"
      and new: "seen (getSegmentKey fmt s) = None"
  shows "dedup_inv fmt (seen(getSegmentKey fmt s \<mapsto> s), us @ [s])"
proof -
  let ?k = "getSegmentKey fmt s"
  from inv have I1: "\<And>k x. seen k = Some x \<Longrightarrow> x \<in> set us \<and> valid_content x \<and> getSegmentKey fmt x = k"
    and I2: "\<And>u. u \<in> set us \<Longrightarrow> is_content u \<Longrightarrow> seen (getSegmentKey fmt u) = Some u"
    and I3: "\<And>i j. i < length us \<Longrightarrow> j < length us \<Longrightarrow> i \<noteq> j \<Longrightarrow> is_content (us ! i)
               \<Longrightarrow> is_content (us ! j) \<Longrightarrow> getSegmentKey fmt (us ! i) \<noteq> getSegmentKey fmt (us ! j)"
    unfolding dedup_inv_def by blast+
  have old: "getSegmentKey fmt u \<noteq> ?k" if "u \<in> set us" "is_content u" for u
  proof
    assume "getSegmentKey fmt u = ?k"
    with I2 [OF that] have "seen ?k = Some u" by simp
    with new show False by simp
  qed
  from v have cs: "is_content s" by (simp add: valid_content_def is_content_def)
  have A: "\<forall>k x. (seen(?k \<mapsto> s)) k = Some x \<longrightarrow>
             x \<in> set (us @ [s]) \<and> valid_content x \<and> getSegmentKey fmt x = k"
  proof (intro allI impI)
    fix k x assume h: "(seen(?k \<mapsto> s)) k = Some x"
    show "x \<in> set (us @ [s]) \<and> valid_content x \<and> getSegmentKey fmt x = k"
    proof (cases "k = ?k")
      case True
      with h have "x = s" by simp
      with v True show ?thesis by simp
    next
      case False
      with h have "seen k = Some x" by simp
      from I1 [OF this] show ?thesis by simp
    qed
  qed
  have B: "\<forall>u \<in> set (us @ [s]). is_content u \<longrightarrow> (seen(?k \<mapsto> s)) (getSegmentKey fmt u) = Some u"
  proof (intro ballI impI)
    fix u assume u: "u \<in> set (us @ [s])" "is_content u"
    show "(seen(?k \<mapsto> s)) (getSegmentKey fmt u) = Some u"
    proof (cases "u = s")
      case True
      then show ?thesis by simp
    next
      case False
      with u have us: "u \<in> set us" by simp
      from old [OF us u(2)] I2 [OF us u(2)] show ?thesis by simp
    qed
  qed
  have C: "\<forall>i j. i < length (us @ [s]) \<and> j < length (us @ [s]) \<and> i \<noteq> j
             \<and> is_content ((us @ [s]) ! i) \<and> is_content ((us @ [s]) ! j)
             \<longrightarrow> getSegmentKey fmt ((us @ [s]) ! i) \<noteq> getSegmentKey fmt ((us @ [s]) ! j)"
  proof (intro allI impI)
    fix i j
    assume h: "i < length (us @ [s]) \<and> j < length (us @ [s]) \<and> i \<noteq> j
             \<and> is_content ((us @ [s]) ! i) \<and> is_content ((us @ [s]) ! j)"
    show "getSegmentKey fmt ((us @ [s]) ! i) \<noteq> getSegmentKey fmt ((us @ [s]) ! j)"
    proof -
      from h have ne: "i \<noteq> j" and li: "i \<le> length us" and lj: "j \<le> length us"
        and ci: "is_content ((us @ [s]) ! i)" and cj: "is_content ((us @ [s]) ! j)"
        by simp_all
      consider (both) "i < length us" "j < length us"
        | (left) "i < length us" "j = length us"
        | (right) "i = length us" "j < length us"
        using ne li lj by linarith
      then show ?thesis
      proof cases
        case both
        then have e: "(us @ [s]) ! i = us ! i" "(us @ [s]) ! j = us ! j" by (simp_all add: nth_append)
        from ci cj I3 [OF both ne] show ?thesis unfolding e by simp
      next
        case left
        then have e: "(us @ [s]) ! i = us ! i" "(us @ [s]) ! j = s" by (simp_all add: nth_append)
        from left have m: "us ! i \<in> set us" by simp
        from ci have "is_content (us ! i)" unfolding e .
        from old [OF m this] show ?thesis unfolding e .
      next
        case right
        then have e: "(us @ [s]) ! j = us ! j" "(us @ [s]) ! i = s" by (simp_all add: nth_append)
        from right have m: "us ! j \<in> set us" by simp
        from cj have "is_content (us ! j)" unfolding e .
        from old [OF m this] show ?thesis unfolding e by simp
      qed
    qed
  qed
  show ?thesis unfolding dedup_inv_def prod.case by (rule conjI [OF A conjI [OF B C]])
qed

lemma dedup_inv_replace:
  assumes inv: "dedup_inv fmt (seen, us)" and v: "valid_content s"
      and ex: "seen (getSegmentKey fmt s) = Some e"
      and ix: "indexOf us e = Some i0"
  shows "dedup_inv fmt (seen(getSegmentKey fmt s \<mapsto> s), us[i0 := s])"
proof -
  let ?k = "getSegmentKey fmt s"
  from inv have I1: "\<And>k x. seen k = Some x \<Longrightarrow> x \<in> set us \<and> valid_content x \<and> getSegmentKey fmt x = k"
    and I2: "\<And>u. u \<in> set us \<Longrightarrow> is_content u \<Longrightarrow> seen (getSegmentKey fmt u) = Some u"
    and I3: "\<And>i j. i < length us \<Longrightarrow> j < length us \<Longrightarrow> i \<noteq> j \<Longrightarrow> is_content (us ! i)
               \<Longrightarrow> is_content (us ! j) \<Longrightarrow> getSegmentKey fmt (us ! i) \<noteq> getSegmentKey fmt (us ! j)"
    unfolding dedup_inv_def by blast+
  from indexOf_SomeD [OF ix] have i0: "i0 < length us" "us ! i0 = e" by simp_all
  from I1 [OF ex] have e: "valid_content e" "getSegmentKey fmt e = ?k" by simp_all
  then have ce: "is_content e" by (simp add: valid_content_def is_content_def)
  from v have cs: "is_content s" by (simp add: valid_content_def is_content_def)
  have other: "\<And>j. j < length us \<Longrightarrow> j \<noteq> i0 \<Longrightarrow> is_content (us ! j) \<Longrightarrow> getSegmentKey fmt (us ! j) \<noteq> ?k"
    using I3 [of _ i0] i0 ce e by auto
  have A: "\<forall>k x. (seen(?k \<mapsto> s)) k = Some x \<longrightarrow>
             x \<in> set (us[i0 := s]) \<and> valid_content x \<and> getSegmentKey fmt x = k"
  proof (intro allI impI)
    fix k x assume h: "(seen(?k \<mapsto> s)) k = Some x"
    show "x \<in> set (us[i0 := s]) \<and> valid_content x \<and> getSegmentKey fmt x = k"
    proof (cases "k = ?k")
      case True
      with h v i0 show ?thesis by (auto intro: set_update_memI)
    next
      case False
      with h have sx: "seen k = Some x" by simp
      from I1 [OF sx] obtain j where j: "j < length us" "us ! j = x"
        by (auto simp: in_set_conv_nth)
      from I1 [OF sx] False i0 e j have "j \<noteq> i0" by auto
      with j have "us[i0 := s] ! j = x" "j < length (us[i0 := s])" by simp_all
      then have "x \<in> set (us[i0 := s])" by (metis nth_mem)
      with I1 [OF sx] show ?thesis by simp
    qed
  qed
  have B: "\<forall>u \<in> set (us[i0 := s]). is_content u \<longrightarrow> (seen(?k \<mapsto> s)) (getSegmentKey fmt u) = Some u"
  proof (intro ballI impI)
    fix u assume u: "u \<in> set (us[i0 := s])" "is_content u"
    then obtain j where j: "j < length us" "us[i0 := s] ! j = u"
      by (auto simp: in_set_conv_nth)
    show "(seen(?k \<mapsto> s)) (getSegmentKey fmt u) = Some u"
    proof (cases "j = i0")
      case True
      with j show ?thesis by simp
    next
      case False
      with j have uj: "us ! j = u" by simp
      with other [OF j(1) False] u have "getSegmentKey fmt u \<noteq> ?k" by simp
      moreover from uj j u have "seen (getSegmentKey fmt u) = Some u" using I2 [of u] by auto
      ultimately show ?thesis by simp
    qed
  qed
  have C: "\<forall>i j. i < length (us[i0 := s]) \<and> j < length (us[i0 := s]) \<and> i \<noteq> j
             \<and> is_content (us[i0 := s] ! i) \<and> is_content (us[i0 := s] ! j)
             \<longrightarrow> getSegmentKey fmt (us[i0 := s] ! i) \<noteq> getSegmentKey fmt (us[i0 := s] ! j)"
  proof (intro allI impI)
    fix i j
    assume h: "i < length (us[i0 := s]) \<and> j < length (us[i0 := s]) \<and> i \<noteq> j
             \<and> is_content (us[i0 := s] ! i) \<and> is_content (us[i0 := s] ! j)"
    show "getSegmentKey fmt (us[i0 := s] ! i) \<noteq> getSegmentKey fmt (us[i0 := s] ! j)"
    proof (cases "i = i0"; cases "j = i0")
      assume "i = i0" "j = i0" with h show ?thesis by simp
    next
      assume ij: "i = i0" "j \<noteq> i0"
      with h other [of j] show ?thesis by auto
    next
      assume ij: "i \<noteq> i0" "j = i0"
      with h other [of i] show ?thesis by auto
    next
      assume ij: "i \<noteq> i0" "j \<noteq> i0"
      with h I3 [of i j] show ?thesis by simp
    qed
  qed
  show ?thesis unfolding dedup_inv_def prod.case by (rule conjI [OF A conjI [OF B C]])
qed

lemma dedup_step_inv:
  assumes "dedup_inv fmt st"
  shows "dedup_inv fmt (dedup_step fmt st seg)"
proof (cases st)
  case (Pair seen us)
  note st = this
  show ?thesis
  proof (cases seg)
    case None
    with assms show ?thesis by (simp add: dedup_step_def st)
  next
    case (Some s)
    show ?thesis
    proof (cases "as_type s = Some ''content''")
      case False
      note nc = this
      show ?thesis
      proof (cases "special_type (as_type s)")
        case True
        with nc st Some have "dedup_step fmt st seg = (seen, us @ [s])"
          by (simp add: dedup_step_def)
        with assms st nc show ?thesis
          using dedup_inv_append_special [of fmt seen us s] by (simp add: is_content_def)
      next
        case False
        with nc st Some have "dedup_step fmt st seg = st" by (simp add: dedup_step_def)
        with assms show ?thesis by simp
      qed
    next
      case True
      show ?thesis
      proof (cases "str_truthy (as_videoPath s)")
        case False
        with True assms st Some show ?thesis by (simp add: dedup_step_def)
      next
        case vp: True
        with True have v: "valid_content s" by (simp add: valid_content_def)
        show ?thesis
        proof (cases "seen (getSegmentKey fmt s)")
          case None
          with True vp assms st Some show ?thesis
            using dedup_inv_append_new [of fmt seen us s, OF _ v]
            by (simp add: dedup_step_def content_not_special Let_def)
        next
          case (Some e)
          note e = this
          show ?thesis
          proof (cases "indexOf us e")
            case None
            with True vp assms st \<open>seg = Some s\<close> e show ?thesis
              by (simp add: dedup_step_def content_not_special Let_def)
          next
            case (Some i0)
            with True vp assms st \<open>seg = Some s\<close> e show ?thesis
              using dedup_inv_replace [of fmt seen us s e i0, OF _ v]
              by (simp add: dedup_step_def content_not_special Let_def)
          qed
        qed
      qed
    qed
  qed
qed

lemma dedup_fold_inv:
  "dedup_inv fmt st \<Longrightarrow> dedup_inv fmt (foldl (dedup_step fmt) st segs)"
  by (induction segs arbitrary: st) (simp_all add: dedup_step_inv)

lemma dedup_inv_empty: "dedup_inv fmt (Map.empty, [])"
  by (simp add: dedup_inv_def)

lemma deduplicateSegments_distinct_keys:
  assumes "i < length (deduplicateSegments fmt segs)" "j < length (deduplicateSegments fmt segs)"
    "i \<noteq> j" "is_content (deduplicateSegments fmt segs ! i)" "is_content (deduplicateSegments fmt segs ! j)"
  shows "getSegmentKey fmt (deduplicateSegments fmt segs ! i) \<noteq> getSegmentKey fmt (deduplicateSegments fmt segs ! j)"
proof -
  obtain seen us where st: "foldl (dedup_step fmt) (Map.empty, []) segs = (seen, us)"
    by (cases "foldl (dedup_step fmt) (Map.empty, []) segs") auto
  from dedup_fold_inv [OF dedup_inv_empty, of fmt segs] st have "dedup_inv fmt (seen, us)" by simp
  then have "\<And>i j. i < length us \<Longrightarrow> j < length us \<Longrightarrow> i \<noteq> j \<Longrightarrow> is_content (us ! i)
               \<Longrightarrow> is_content (us ! j) \<Longrightarrow> getSegmentKey fmt (us ! i) \<noteq> getSegmentKey fmt (us ! j)"
    unfolding dedup_inv_def by blast
  with assms st show ?thesis by (simp add: deduplicateSegments_def)
qed

text \<open>
  For every content segment with a video path in the input, the result holds a content
  segment of the same key that the input segment does not beat; and the result holds only
  segments of the input.
\<close>

lemma js_gt_irrefl: "\<not> js_gt x x"
  by (cases x) (simp_all add: js_gt_def)

lemma js_gt_not_below:
  "js_gt s e \<Longrightarrow> \<not> js_gt y e \<Longrightarrow> \<not> js_gt y s"
  by (cases s; cases e; cases y) (simp_all add: js_gt_def)

lemma isBetter_irrefl: "\<not> isBetterSegment s s"
  by (simp add: isBetterSegment_def js_gt_irrefl)

lemma isBetter_not_below:
  "isBetterSegment s e \<Longrightarrow> \<not> isBetterSegment y e \<Longrightarrow> \<not> isBetterSegment y s"
  unfolding isBetterSegment_def by (rule js_gt_not_below)

lemma dedup_step_cases:
  assumes inv: "dedup_inv fmt (seen, us)"
  obtains (same) "dedup_step fmt (seen, us) seg = (seen, us)"
      "\<And>s. seg = Some s \<Longrightarrow> valid_content s \<Longrightarrow>
          (\<exists>e. seen (getSegmentKey fmt s) = Some e \<and> \<not> isBetterSegment s e)"
    | (special) s where "seg = Some s" "\<not> valid_content s"
      "dedup_step fmt (seen, us) seg = (seen, us @ [s])"
    | (new) s where "seg = Some s" "valid_content s" "seen (getSegmentKey fmt s) = None"
      "dedup_step fmt (seen, us) seg = (seen(getSegmentKey fmt s \<mapsto> s), us @ [s])"
    | (replace) s e i0 where "seg = Some s" "valid_content s"
      "seen (getSegmentKey fmt s) = Some e" "isBetterSegment s e" "indexOf us e = Some i0"
      "dedup_step fmt (seen, us) seg = (seen(getSegmentKey fmt s \<mapsto> s), us[i0 := s])"
proof (cases seg)
  case None
  then show ?thesis using same by (simp add: dedup_step_def)
next
  case (Some s)
  show ?thesis
  proof (cases "valid_content s")
    case False
    show ?thesis
    proof (cases "special_type (as_type s)")
      case True
      with False Some have "dedup_step fmt (seen, us) seg = (seen, us @ [s])"
        using content_not_special by (auto simp: dedup_step_def valid_content_def)
      with Some False show ?thesis using special by blast
    next
      case nsp: False
      with False Some have "dedup_step fmt (seen, us) seg = (seen, us)"
        using content_not_special by (auto simp: dedup_step_def valid_content_def)
      with Some False show ?thesis using same by simp
    qed
  next
    case True
    then have t: "as_type s = Some ''content''" "str_truthy (as_videoPath s)"
      by (simp_all add: valid_content_def)
    show ?thesis
    proof (cases "seen (getSegmentKey fmt s)")
      case None
      with t Some have "dedup_step fmt (seen, us) seg = (seen(getSegmentKey fmt s \<mapsto> s), us @ [s])"
        by (simp add: dedup_step_def content_not_special Let_def)
      with Some True None show ?thesis using new by blast
    next
      case e: (Some e)
      show ?thesis
      proof (cases "isBetterSegment s e")
        case False
        with t Some e have "dedup_step fmt (seen, us) seg = (seen, us)"
          by (simp add: dedup_step_def content_not_special Let_def)
        with Some e False show ?thesis using same by simp
      next
        case b: True
        from inv e have "e \<in> set us" unfolding dedup_inv_def by blast
        from indexOf_Some [OF this] obtain i0 where i0: "indexOf us e = Some i0" by blast
        with t Some e b
        have "dedup_step fmt (seen, us) seg = (seen(getSegmentKey fmt s \<mapsto> s), us[i0 := s])"
          by (simp add: dedup_step_def content_not_special Let_def)
        with Some True e b i0 show ?thesis using replace by blast
      qed
    qed
  qed
qed

lemma dedup_step_best:
  assumes inv: "dedup_inv fmt (seen, us)" and best: "dedup_best fmt P (seen, us)"
  shows "dedup_best fmt (insert seg P) (dedup_step fmt (seen, us) seg)"
proof -
  from best have J: "\<And>y. Some y \<in> P \<Longrightarrow> valid_content y \<Longrightarrow>
            \<exists>x. seen (getSegmentKey fmt y) = Some x \<and> \<not> isBetterSegment y x"
    and M: "\<And>x. x \<in> set us \<Longrightarrow> Some x \<in> P"
    unfolding dedup_best_def by auto
  from inv show ?thesis
  proof (cases rule: dedup_step_cases [where seg = seg])
    case same
    show ?thesis unfolding same(1) dedup_best_def using J M same(2) by auto
  next
    case (special s)
    show ?thesis unfolding special(3) dedup_best_def using J M special(1,2) by auto
  next
    case (new s)
    have "\<exists>x. (seen(getSegmentKey fmt s \<mapsto> s)) (getSegmentKey fmt y) = Some x \<and> \<not> isBetterSegment y x"
      if "Some y \<in> insert seg P" "valid_content y" for y
    proof (cases "getSegmentKey fmt y = getSegmentKey fmt s")
      case True
      have "y = s"
      proof (rule ccontr)
        assume "y \<noteq> s"
        with that new(1) have "Some y \<in> P" by auto
        from J [OF this that(2)] True new(3) show False by simp
      qed
      then show ?thesis using isBetter_irrefl by simp
    next
      case False
      with that new(1) have "Some y \<in> P" by auto
      from J [OF this that(2)] False show ?thesis by simp
    qed
    then show ?thesis unfolding new(4) dedup_best_def using M new(1) by auto
  next
    case (replace s e i0)
    have "\<exists>x. (seen(getSegmentKey fmt s \<mapsto> s)) (getSegmentKey fmt y) = Some x \<and> \<not> isBetterSegment y x"
      if "Some y \<in> insert seg P" "valid_content y" for y
    proof (cases "getSegmentKey fmt y = getSegmentKey fmt s")
      case True
      show ?thesis
      proof (cases "y = s")
        case True
        then show ?thesis using isBetter_irrefl by simp
      next
        case False
        with that replace(1) have "Some y \<in> P" by auto
        from J [OF this that(2)] True replace(3) have "\<not> isBetterSegment y e" by simp
        from isBetter_not_below [OF replace(4) this] True show ?thesis by simp
      qed
    next
      case False
      with that replace(1) have "Some y \<in> P" by auto
      from J [OF this that(2)] False show ?thesis by simp
    qed
    moreover have "\<forall>x \<in> set (us[i0 := s]). Some x \<in> insert seg P"
      using M replace(1) set_update_subset_insert [of us i0 s] by auto
    ultimately show ?thesis unfolding replace(6) dedup_best_def by simp
  qed
qed

lemma dedup_fold_best:
  "dedup_inv fmt st \<Longrightarrow> dedup_best fmt P st \<Longrightarrow>
     dedup_best fmt (set segs \<union> P) (foldl (dedup_step fmt) st segs)"
proof (induction segs arbitrary: st P)
  case Nil
  then show ?case by simp
next
  case (Cons seg segs)
  obtain seen us where st: "st = (seen, us)" by (cases st)
  from Cons.prems st have 1: "dedup_inv fmt (dedup_step fmt st seg)" by (simp add: dedup_step_inv)
  from Cons.prems st have 2: "dedup_best fmt (insert seg P) (dedup_step fmt st seg)"
    using dedup_step_best [of fmt seen us P seg] by simp
  from Cons.IH [OF 1 2] show ?case by (simp add: Un_commute insert_commute)
qed

lemma deduplicateSegments_best:
  assumes "Some y \<in> set segs" "valid_content y"
  shows "\<exists>x \<in> set (deduplicateSegments fmt segs).
           is_content x \<and> getSegmentKey fmt x = getSegmentKey fmt y \<and> \<not> isBetterSegment y x"
proof -
  obtain seen us where st: "foldl (dedup_step fmt) (Map.empty, []) segs = (seen, us)"
    by (cases "foldl (dedup_step fmt) (Map.empty, []) segs") auto
  from dedup_fold_inv [OF dedup_inv_empty, of fmt segs] st have inv: "dedup_inv fmt (seen, us)" by simp
  have "dedup_best fmt {} (Map.empty, [])" by (simp add: dedup_best_def)
  from dedup_fold_best [OF dedup_inv_empty this, of segs] st
  have "dedup_best fmt (set segs) (seen, us)" by simp
  with assms obtain x where x: "seen (getSegmentKey fmt y) = Some x" "\<not> isBetterSegment y x"
    unfolding dedup_best_def by auto
  from inv x(1) have "x \<in> set us" "valid_content x" "getSegmentKey fmt x = getSegmentKey fmt y"
    unfolding dedup_inv_def by blast+
  with x st show ?thesis by (auto simp: deduplicateSegments_def valid_content_def is_content_def)
qed

lemma deduplicateSegments_from_input:
  "x \<in> set (deduplicateSegments fmt segs) \<Longrightarrow> Some x \<in> set segs"
proof -
  obtain seen us where st: "foldl (dedup_step fmt) (Map.empty, []) segs = (seen, us)"
    by (cases "foldl (dedup_step fmt) (Map.empty, []) segs") auto
  have "dedup_best fmt {} (Map.empty, [])" by (simp add: dedup_best_def)
  from dedup_fold_best [OF dedup_inv_empty this, of segs] st
  have "dedup_best fmt (set segs) (seen, us)" by simp
  then show "x \<in> set (deduplicateSegments fmt segs) \<Longrightarrow> Some x \<in> set segs"
    using st by (simp add: dedup_best_def deduplicateSegments_def)
qed

text \<open>
  Of two content segments with the same key, the second replaces the first only when its
  score is strictly higher: a tie keeps the first.
\<close>

lemma deduplicateSegments_pair:
  assumes "valid_content a" "valid_content b" "getSegmentKey fmt a = getSegmentKey fmt b"
  shows "deduplicateSegments fmt [Some a, Some b] = [if isBetterSegment b a then b else a]"
  using assms
  by (simp add: deduplicateSegments_def dedup_step_def valid_content_def content_not_special Let_def)

lemma valve_segments_collide:
  "valid_content valve_segment" "valid_content valve_segment_again"
  "getSegmentKey whole_number_format valve_segment = ''lesson.mp4:20-50:open the valve''"
  "getSegmentKey whole_number_format valve_segment_again = ''lesson.mp4:20-50:open the valve''"
  "getScore valve_segment = Num (71 / 15)"
  "getScore valve_segment_again = Num (269 / 75)"
  by code_simp+

text \<open>
  Claim C5 fails in the code. The two sample segments have the same key, and
  \<open>deduplicateSegments\<close> keeps only the first one, which has the higher score, in
  whichever order they come. \<open>generateVideo\<close> computes this result and does not use it:
  its loop runs over \<open>segments\<close>, so it extracts and captions a clip for each of the
  two segments and joins both into the final video.
\<close>

theorem generateVideo_keeps_both_duplicates:
  "getSegmentKey whole_number_format valve_segment
     = getSegmentKey whole_number_format valve_segment_again
   \<and> deduplicateSegments whole_number_format [Some valve_segment, Some valve_segment_again]
       = [valve_segment]
   \<and> deduplicateSegments whole_number_format [Some valve_segment_again, Some valve_segment]
       = [valve_segment]
   \<and> generateVideo sample_studio whole_number_format [Some valve_segment, Some valve_segment_again]
       = Inr \<lparr>finalOutput = ''out/final-id.mp4'',
               allParts = [''out/temp/captioned-id-0.mp4'', ''out/temp/captioned-id-1.mp4'']\<rparr>"
  by code_simp

subsection \<open>Assembler: the extraction window\<close>

text \<open>
  \<open>generateVideo\<close> does not call \<open>normalizeTimes\<close>: it computes the window it
  extracts from the start time of the segment and the length of its text, and bounds only
  the end by the probed duration. For a start time of 1000 s in a video of 60 s the
  window starts at 984.5 s, behind the end of the file.
\<close>

lemma extraction_window_behind_end:
  "extraction_window (valve_segment\<lparr>as_startTime := Num 1000\<rparr>) 14 (Num 60)
     = (Num (1969 / 2), Num 60)"
  by code_simp

end
